theory Spec2Isabelle
  imports Main "HOL-Library.Char_ord" "HOL-Library.List_Lexorder" "HOL-Library.Sublist"
    "HOL-Library.Multiset"
begin

section \<open>Python values\<close>

text \<open>
  A Python \<open>str\<close> is modelled as a \<open>string\<close> whose characters are the code points
  below 256 (Latin-1). The order of strings is the lexicographic order of code points
  (\<open>List_Lexorder\<close> over \<open>Char_ord\<close>), which is Python's \<open><\<close> on \<open>str\<close>.

  Exceptions are values: a function that can raise returns \<open>error + 'a\<close>, \<open>Inl\<close> the
  exception.
\<close>

datatype error =
    ValueError string
  | AttributeError string
  | KeyError string
  | TypeError string

text \<open>The values of type \<open>Any\<close> that a \<open>Dict[str, Any]\<close> holds, as a closed variant;
  a dict is an association list read with \<open>map_of\<close>.\<close>

datatype pyval =
    PNone
  | PBool bool
  | PInt int
  | PStr string
  | PList "pyval list"
  | PDict "(string \<times> pyval) list"

text \<open>\<open>str.lower()\<close> on code points below 256: \<open>A\<close>..\<open>Z\<close> and \<open>0xC0\<close>..\<open>0xDE\<close>
  without \<open>0xD7\<close> move up by 32 (bit 5 is set), everything else stays.\<close>

fun py_lower_char :: "char \<Rightarrow> char" where
  "py_lower_char (Char b0 b1 b2 b3 b4 b5 b6 b7) =
     (let n = (of_char (Char b0 b1 b2 b3 b4 b5 b6 b7) :: nat) in
      if (65 \<le> n \<and> n \<le> 90) \<or> (192 \<le> n \<and> n \<le> 222 \<and> n \<noteq> 215)
      then Char b0 b1 b2 b3 b4 True b6 b7
      else Char b0 b1 b2 b3 b4 b5 b6 b7)"

definition lower :: "string \<Rightarrow> string" where
  "lower s = map py_lower_char s"

text \<open>\<open>p in s\<close> on two strings: \<open>p\<close> occurs in \<open>s\<close> as a contiguous substring.\<close>

fun str_contains :: "string \<Rightarrow> string \<Rightarrow> bool" where
  "str_contains p [] = (p = [])"
| "str_contains p (c # cs) = (prefix p (c # cs) \<or> str_contains p cs)"

section \<open>core/incident_entity.py\<close>

datatype IncidentType =
    OBSERVATION
  | INTERACTION
  | STATE_CHANGE
  | COMMUNICATION
  | SYSTEM_EVENT
  | OTHER

text \<open>\<open>member.value\<close> and the lookup by value \<open>IncidentType(v)\<close>, which raises
  \<open>ValueError\<close> on a string that is no member's value.\<close>

fun IncidentType_value :: "IncidentType \<Rightarrow> string" where
  "IncidentType_value OBSERVATION = ''observation''"
| "IncidentType_value INTERACTION = ''interaction''"
| "IncidentType_value STATE_CHANGE = ''state_change''"
| "IncidentType_value COMMUNICATION = ''communication''"
| "IncidentType_value SYSTEM_EVENT = ''system_event''"
| "IncidentType_value OTHER = ''other''"

definition IncidentType_members :: "IncidentType list" where
  "IncidentType_members =
     [OBSERVATION, INTERACTION, STATE_CHANGE, COMMUNICATION, SYSTEM_EVENT, OTHER]"

definition IncidentType_of_value :: "string \<Rightarrow> error + IncidentType" where
  "IncidentType_of_value v =
     (case find (\<lambda>m. IncidentType_value m = v) IncidentType_members of
        Some m \<Rightarrow> Inr m
      | None \<Rightarrow> Inl (ValueError (CHR 0x27 # v @ CHR 0x27 # '' is not a valid IncidentType'')))"

record Incident =
  incident_id :: string
  date :: string
  system :: string
  incident_type :: IncidentType
  participants :: "string list"
  facts :: "string list"
  incident_context :: "(string \<times> pyval) list"
  summary :: string
  outcome :: string
  metadata :: "(string \<times> pyval) list"

definition Incident_forbidden_phrases :: "string list" where
  "Incident_forbidden_phrases =
     [''should'', ''will'', ''must'', ''predict'', ''optimize'',
      ''best'', ''worst'', ''good'', ''bad'', ''right'', ''wrong'',
      ''destiny'', ''fate'', ''meant to'', ''supposed to'']"

text \<open>The message of the f-string
  \<^verbatim>\<open>f"Fact contains prescriptive language '{phrase}': {fact}"\<close>.\<close>

definition fact_message :: "string \<Rightarrow> string \<Rightarrow> string" where
  "fact_message phrase f =
     ''Fact contains prescriptive language '' @ CHR 0x27 # phrase @ CHR 0x27 # '': '' @ f"

text \<open>The loop over \<open>self.facts\<close> of \<open>Incident.__post_init__\<close>: per fact, the first phrase
  of the list that occurs in the lowered fact raises.\<close>

fun check_facts :: "string list \<Rightarrow> error + unit" where
  "check_facts [] = Inr ()"
| "check_facts (f # rest) =
     (case find (\<lambda>phrase. str_contains phrase (lower f)) Incident_forbidden_phrases of
        Some phrase \<Rightarrow> Inl (ValueError (fact_message phrase f))
      | None \<Rightarrow> check_facts rest)"

definition Incident_post_init :: "Incident \<Rightarrow> error + unit" where
  "Incident_post_init self =
     (if incident_id self = [] then Inl (ValueError ''incident_id cannot be empty'')
      else if date self = [] then Inl (ValueError ''date cannot be empty'')
      else if system self = [] then Inl (ValueError ''system cannot be empty'')
      else if participants self = [] then Inl (ValueError ''participants cannot be empty'')
      else if facts self = [] then Inl (ValueError ''facts cannot be empty'')
      else check_facts (facts self))"

text \<open>The constructor generated by \<open>@dataclass\<close>: the fields are stored, then
  \<open>__post_init__\<close> runs, and the object exists only when it does not raise.\<close>

definition Incident_new ::
  "string \<Rightarrow> string \<Rightarrow> string \<Rightarrow> IncidentType \<Rightarrow> string list \<Rightarrow> string list \<Rightarrow>
   (string \<times> pyval) list \<Rightarrow> string \<Rightarrow> string \<Rightarrow> (string \<times> pyval) list \<Rightarrow> error + Incident" where
  "Incident_new iid d sys ty ps fs ctx summ outc md =
     (let self = \<lparr>incident_id = iid, date = d, system = sys, incident_type = ty,
                  participants = ps, facts = fs, incident_context = ctx, summary = summ,
                  outcome = outc, metadata = md\<rparr>
      in case Incident_post_init self of Inl e \<Rightarrow> Inl e | Inr u \<Rightarrow> Inr self)"

definition Incident_to_dict :: "Incident \<Rightarrow> (string \<times> pyval) list" where
  "Incident_to_dict self =
     [(''incident_id'', PStr (incident_id self)),
      (''date'', PStr (date self)),
      (''system'', PStr (system self)),
      (''incident_type'', PStr (IncidentType_value (incident_type self))),
      (''participants'', PList (map PStr (participants self))),
      (''facts'', PList (map PStr (facts self))),
      (''context'', PDict (incident_context self)),
      (''summary'', PStr (summary self)),
      (''outcome'', PStr (outcome self)),
      (''metadata'', PDict (metadata self))]"

text \<open>Sequencing of calls that can raise: the first exception ends the evaluation.\<close>

definition bind_err :: "error + 'a \<Rightarrow> ('a \<Rightarrow> error + 'b) \<Rightarrow> error + 'b" where
  "bind_err r k = (case r of Inl e \<Rightarrow> Inl e | Inr v \<Rightarrow> k v)"

text \<open>\<open>data[key]\<close> (raises \<open>KeyError\<close>) and \<open>data.get(key, default)\<close>.\<close>

definition dict_item :: "(string \<times> pyval) list \<Rightarrow> string \<Rightarrow> error + pyval" where
  "dict_item data k = (case map_of data k of Some v \<Rightarrow> Inr v | None \<Rightarrow> Inl (KeyError k))"

definition dict_get :: "(string \<times> pyval) list \<Rightarrow> string \<Rightarrow> pyval \<Rightarrow> pyval" where
  "dict_get data k dflt = (case map_of data k of Some v \<Rightarrow> v | None \<Rightarrow> dflt)"

text \<open>Python stores whatever object the dictionary holds; the record fields here are
  typed as the dataclass annotates them, so the reading of a value at its annotated type is
  explicit, and a value of another type ends \<open>from_dict\<close> with \<open>TypeError\<close>: such a
  dictionary is outside what the typed record can hold.\<close>

fun as_str :: "pyval \<Rightarrow> error + string" where
  "as_str (PStr s) = Inr s"
| "as_str v = Inl (TypeError ''str expected'')"

fun as_str_list_aux :: "pyval list \<Rightarrow> error + string list" where
  "as_str_list_aux [] = Inr []"
| "as_str_list_aux (v # vs) =
     bind_err (as_str v) (\<lambda>s. bind_err (as_str_list_aux vs) (\<lambda>ss. Inr (s # ss)))"

fun as_str_list :: "pyval \<Rightarrow> error + string list" where
  "as_str_list (PList vs) = as_str_list_aux vs"
| "as_str_list v = Inl (TypeError ''List[str] expected'')"

fun as_dict :: "pyval \<Rightarrow> error + (string \<times> pyval) list" where
  "as_dict (PDict d) = Inr d"
| "as_dict v = Inl (TypeError ''Dict[str, Any] expected'')"

text \<open>\<open>IncidentType(v)\<close> on any value: only a string can be a member's value.\<close>

fun IncidentType_call :: "pyval \<Rightarrow> error + IncidentType" where
  "IncidentType_call (PStr s) = IncidentType_of_value s"
| "IncidentType_call v = Inl (ValueError ''not a valid IncidentType'')"

text \<open>The arguments of the call are evaluated left to right (so the first missing key or
  the invalid type name raises), then the constructor runs \<open>__post_init__\<close>.\<close>

definition Incident_from_dict :: "(string \<times> pyval) list \<Rightarrow> error + Incident" where
  "Incident_from_dict data =
     bind_err (dict_item data ''incident_id'') (\<lambda>v_id.
     bind_err (dict_item data ''date'') (\<lambda>v_date.
     bind_err (dict_item data ''system'') (\<lambda>v_system.
     bind_err (IncidentType_call (dict_get data ''incident_type'' (PStr ''other''))) (\<lambda>ty.
     bind_err (dict_item data ''participants'') (\<lambda>v_participants.
     bind_err (dict_item data ''facts'') (\<lambda>v_facts.
     bind_err (as_str v_id) (\<lambda>iid.
     bind_err (as_str v_date) (\<lambda>d.
     bind_err (as_str v_system) (\<lambda>sys.
     bind_err (as_str_list v_participants) (\<lambda>ps.
     bind_err (as_str_list v_facts) (\<lambda>fs.
     bind_err (as_dict (dict_get data ''context'' (PDict []))) (\<lambda>ctx.
     bind_err (as_str (dict_get data ''summary'' (PStr []))) (\<lambda>summ.
     bind_err (as_str (dict_get data ''outcome'' (PStr []))) (\<lambda>outc.
     bind_err (as_dict (dict_get data ''metadata'' (PDict []))) (\<lambda>md.
       Incident_new iid d sys ty ps fs ctx summ outc md)))))))))))))))"

text \<open>The instance attributes of an \<open>Incident\<close> are its ten fields (the enum member
  of \<open>incident_type\<close> is shown by its value); reading any other data attribute raises
  \<open>AttributeError\<close>. The class has no \<open>entity_id\<close>: its only other attributes are the
  methods \<open>__post_init__\<close>, \<open>to_dict\<close> and \<open>from_dict\<close>.\<close>

definition Incident_vars :: "Incident \<Rightarrow> (string \<times> pyval) list" where
  "Incident_vars self =
     [(''incident_id'', PStr (incident_id self)),
      (''date'', PStr (date self)),
      (''system'', PStr (system self)),
      (''incident_type'', PStr (IncidentType_value (incident_type self))),
      (''participants'', PList (map PStr (participants self))),
      (''facts'', PList (map PStr (facts self))),
      (''context'', PDict (incident_context self)),
      (''summary'', PStr (summary self)),
      (''outcome'', PStr (outcome self)),
      (''metadata'', PDict (metadata self))]"

definition Incident_getattr :: "Incident \<Rightarrow> string \<Rightarrow> error + pyval" where
  "Incident_getattr self name =
     (case map_of (Incident_vars self) name of
        Some v \<Rightarrow> Inr v
      | None \<Rightarrow> Inl (AttributeError name))"

record EntityIdentity =
  entity_id :: string
  incidents :: "Incident list"

definition EntityIdentity_new :: "string \<Rightarrow> Incident list \<Rightarrow> error + EntityIdentity" where
  "EntityIdentity_new eid incs =
     (if eid = [] then Inl (ValueError ''entity_id cannot be empty'')
      else Inr \<lparr>entity_id = eid, incidents = incs\<rparr>)"

text \<open>\<open>add_incident\<close> reads \<open>incident.entity_id\<close> (an attribute of the incident, not of
  \<open>self\<close>) before it compares; the result is the entity after the call.\<close>

definition add_incident :: "EntityIdentity \<Rightarrow> Incident \<Rightarrow> error + EntityIdentity" where
  "add_incident self incident =
     bind_err (Incident_getattr incident ''entity_id'') (\<lambda>v.
       if v \<notin> set (map PStr (participants incident))
       then Inl (ValueError (''Incident does not involve entity '' @ entity_id self))
       else Inr (self\<lparr>incidents := incidents self @ [incident]\<rparr>))"

definition get_incident_count :: "EntityIdentity \<Rightarrow> nat" where
  "get_incident_count self = length (incidents self)"

text \<open>The builtins \<open>min\<close> and \<open>max\<close> with a key: one pass that replaces the current best
  only by a strictly smaller (larger) key, so the first of several equal ones is returned.\<close>

fun min_from :: "('a \<Rightarrow> 'k::linorder) \<Rightarrow> 'a \<Rightarrow> 'a list \<Rightarrow> 'a" where
  "min_from key best [] = best"
| "min_from key best (x # xs) =
     (if key x < key best then min_from key x xs else min_from key best xs)"

fun max_from :: "('a \<Rightarrow> 'k::linorder) \<Rightarrow> 'a \<Rightarrow> 'a list \<Rightarrow> 'a" where
  "max_from key best [] = best"
| "max_from key best (x # xs) =
     (if key x > key best then max_from key x xs else max_from key best xs)"

definition get_first_incident :: "EntityIdentity \<Rightarrow> Incident option" where
  "get_first_incident self =
     (case incidents self of [] \<Rightarrow> None | i # rest \<Rightarrow> Some (min_from date i rest))"

definition get_last_incident :: "EntityIdentity \<Rightarrow> Incident option" where
  "get_last_incident self =
     (case incidents self of [] \<Rightarrow> None | i # rest \<Rightarrow> Some (max_from date i rest))"

text \<open>\<open>list(set(...))\<close> has no specified order: the three projections are sets.\<close>

definition get_systems :: "EntityIdentity \<Rightarrow> string set" where
  "get_systems self = set (map system (incidents self))"

definition get_incident_types :: "EntityIdentity \<Rightarrow> string set" where
  "get_incident_types self =
     set (map (\<lambda>i. IncidentType_value (incident_type i)) (incidents self))"

definition get_co_participants :: "EntityIdentity \<Rightarrow> string set" where
  "get_co_participants self =
     set (filter (\<lambda>p. p \<noteq> entity_id self) (concat (map participants (incidents self))))"

text \<open>\<open>IncidentLog\<close> has the one attribute \<open>incidents\<close>, the ledger.\<close>

type_synonym IncidentLog = "Incident list"

definition IncidentLog_init :: IncidentLog where
  "IncidentLog_init = []"

definition IncidentLog_append :: "IncidentLog \<Rightarrow> Incident \<Rightarrow> IncidentLog" where
  "IncidentLog_append self incident = self @ [incident]"

definition get_all :: "IncidentLog \<Rightarrow> Incident list" where
  "get_all self = self"

definition get_by_entity :: "IncidentLog \<Rightarrow> string \<Rightarrow> Incident list" where
  "get_by_entity self eid = filter (\<lambda>i. eid \<in> set (participants i)) self"

definition get_by_system :: "IncidentLog \<Rightarrow> string \<Rightarrow> Incident list" where
  "get_by_system self sys = filter (\<lambda>i. system i = sys) self"

definition get_by_date_range :: "IncidentLog \<Rightarrow> string \<Rightarrow> string \<Rightarrow> Incident list" where
  "get_by_date_range self start_date end_date =
     filter (\<lambda>i. start_date \<le> date i \<and> date i \<le> end_date) self"

definition get_count :: "IncidentLog \<Rightarrow> nat" where
  "get_count self = length self"

section \<open>core/snapshot.py\<close>

text \<open>Field names that several classes share carry a prefix per record (\<open>is_\<close>, \<open>ts_\<close>,
  \<open>es_\<close>, \<open>ss_\<close>, \<open>rs_\<close>, \<open>tp_\<close>). \<open>datetime.now().isoformat()\<close> is the argument \<open>now\<close>
  of every operation that stamps its result.\<close>

record IdentitySnapshot =
  is_entity_id :: string
  is_snapshot_date :: string
  is_incident_count :: nat
  is_first_seen :: "string option"
  is_last_seen :: "string option"
  is_systems :: "string set"
  is_incident_types :: "string set"
  is_co_participants :: "string set"
  is_metadata :: "(string \<times> pyval) list"

record TimelineSnapshot =
  ts_entity_id :: string
  ts_snapshot_date :: string
  incidents_chronological :: "(string \<times> pyval) list list"

text \<open>The per-entity summary dictionary built by \<open>create_system_snapshot\<close>, with its four
  fixed keys.\<close>

record EntitySummary =
  es_entity_id :: string
  es_incident_count :: int
  es_first_seen :: string
  es_last_seen :: string

record SystemSnapshot =
  ss_system :: string
  ss_snapshot_date :: string
  ss_entities :: "string \<rightharpoonup> EntitySummary"
  ss_incident_count :: nat

record RelationshipSnapshot =
  rs_entity1 :: string
  rs_entity2 :: string
  rs_snapshot_date :: string
  rs_shared_incidents :: "(string \<times> pyval) list list"
  rs_interaction_count :: nat
  rs_note :: string

record TemporalSnapshot =
  tp_start_date :: string
  tp_end_date :: string
  tp_snapshot_date :: string
  tp_incident_count :: nat
  tp_systems_involved :: "string set"
  tp_entities_involved :: "string set"
  tp_incidents :: "(string \<times> pyval) list list"
  tp_note :: string

text \<open>The generator holds a reference to the ledger and its cache \<open>snapshots\<close>. A method
  returns its result and the generator after the call.\<close>

record SnapshotGenerator =
  incident_log :: IncidentLog
  snapshots :: "string \<rightharpoonup> IdentitySnapshot"

definition SnapshotGenerator_init :: "IncidentLog \<Rightarrow> SnapshotGenerator" where
  "SnapshotGenerator_init log = \<lparr>incident_log = log, snapshots = Map.empty\<rparr>"

definition view_note :: string where
  "view_note =
     ''This snapshot is a view, not authoritative. It can be regenerated or deleted.''"

definition create_identity_snapshot ::
  "EntityIdentity \<Rightarrow> string \<Rightarrow> SnapshotGenerator \<Rightarrow> IdentitySnapshot \<times> SnapshotGenerator" where
  "create_identity_snapshot entity now self =
     (let first_incident = get_first_incident entity;
          last_incident = get_last_incident entity;
          snapshot = \<lparr>is_entity_id = entity_id entity,
                      is_snapshot_date = now,
                      is_incident_count = get_incident_count entity,
                      is_first_seen = map_option date first_incident,
                      is_last_seen = map_option date last_incident,
                      is_systems = get_systems entity,
                      is_incident_types = get_incident_types entity,
                      is_co_participants = get_co_participants entity,
                      is_metadata = [(''note'', PStr view_note)]\<rparr>
      in (snapshot, self))"

text \<open>\<open>sorted\<close> is stable, as \<open>sort_key\<close> is.\<close>

definition create_timeline_snapshot ::
  "EntityIdentity \<Rightarrow> string \<Rightarrow> SnapshotGenerator \<Rightarrow> TimelineSnapshot \<times> SnapshotGenerator" where
  "create_timeline_snapshot entity now self =
     (let incidents_sorted = sort_key date (incidents entity);
          incidents_dict = map Incident_to_dict incidents_sorted;
          snapshot = \<lparr>ts_entity_id = entity_id entity,
                      ts_snapshot_date = now,
                      incidents_chronological = incidents_dict\<rparr>
      in (snapshot, self))"

text \<open>The body of the inner loop of \<open>create_system_snapshot\<close> for one participant of one
  incident dated \<open>d\<close>: insert a fresh summary if the key is absent, then count and set
  \<open>last_seen\<close>. The key is present after the first statement, so the two lookups that
  follow cannot raise.\<close>

definition entity_step ::
  "string \<Rightarrow> string \<Rightarrow> (string \<rightharpoonup> EntitySummary) \<Rightarrow> (string \<rightharpoonup> EntitySummary)" where
  "entity_step d eid entities_dict =
     (let d1 = (if entities_dict eid = None
                then entities_dict(eid \<mapsto> \<lparr>es_entity_id = eid, es_incident_count = 0,
                                             es_first_seen = d, es_last_seen = d\<rparr>)
                else entities_dict);
          d2 = d1(eid \<mapsto> (the (d1 eid))\<lparr>es_incident_count :=
                                              es_incident_count (the (d1 eid)) + 1\<rparr>);
          d3 = d2(eid \<mapsto> (the (d2 eid))\<lparr>es_last_seen := d\<rparr>)
      in d3)"

definition incident_step ::
  "Incident \<Rightarrow> (string \<rightharpoonup> EntitySummary) \<Rightarrow> (string \<rightharpoonup> EntitySummary)" where
  "incident_step incident entities_dict =
     fold (entity_step (date incident)) (participants incident) entities_dict"

definition create_system_snapshot ::
  "string \<Rightarrow> string \<Rightarrow> SnapshotGenerator \<Rightarrow> SystemSnapshot \<times> SnapshotGenerator" where
  "create_system_snapshot sys now self =
     (let incs = get_by_system (incident_log self) sys;
          entities_dict = fold incident_step incs Map.empty;
          snapshot = \<lparr>ss_system = sys,
                      ss_snapshot_date = now,
                      ss_entities = entities_dict,
                      ss_incident_count = length incs\<rparr>
      in (snapshot, self))"

definition create_relationship_snapshot ::
  "string \<Rightarrow> string \<Rightarrow> string \<Rightarrow> SnapshotGenerator
   \<Rightarrow> RelationshipSnapshot \<times> SnapshotGenerator" where
  "create_relationship_snapshot entity1_id entity2_id now self =
     (let shared_incidents =
            map Incident_to_dict
              (filter (\<lambda>i. entity1_id \<in> set (participants i) \<and> entity2_id \<in> set (participants i))
                 (get_all (incident_log self)))
      in (\<lparr>rs_entity1 = entity1_id,
           rs_entity2 = entity2_id,
           rs_snapshot_date = now,
           rs_shared_incidents = shared_incidents,
           rs_interaction_count = length shared_incidents,
           rs_note = view_note\<rparr>, self))"

definition create_temporal_snapshot ::
  "string \<Rightarrow> string \<Rightarrow> string \<Rightarrow> SnapshotGenerator
   \<Rightarrow> TemporalSnapshot \<times> SnapshotGenerator" where
  "create_temporal_snapshot start_date end_date now self =
     (let incs = get_by_date_range (incident_log self) start_date end_date
      in (\<lparr>tp_start_date = start_date,
           tp_end_date = end_date,
           tp_snapshot_date = now,
           tp_incident_count = length incs,
           tp_systems_involved = set (map system incs),
           tp_entities_involved = set (concat (map participants incs)),
           tp_incidents = map Incident_to_dict incs,
           tp_note = view_note\<rparr>, self))"

definition delete_snapshot :: "string \<Rightarrow> SnapshotGenerator \<Rightarrow> SnapshotGenerator" where
  "delete_snapshot eid self =
     (if snapshots self eid \<noteq> None
      then self\<lparr>snapshots := (snapshots self)(eid := None)\<rparr>
      else self)"

definition regenerate_all_snapshots :: "SnapshotGenerator \<Rightarrow> SnapshotGenerator" where
  "regenerate_all_snapshots self = self\<lparr>snapshots := Map.empty\<rparr>"

text \<open>A client's view of the running system: the generator (with the ledger it refers to)
  and the \<open>EntityIdentity\<close> objects alive, addressed by their position. An operation is
  one call of a client; \<open>exec\<close> gives the state after it. A call that raises leaves the
  state as it was at the raise, and a call on an address that holds no object cannot be
  made, which is the state unchanged.\<close>

record world =
  generator :: SnapshotGenerator
  entity_objs :: "EntityIdentity list"

datatype op =
    Op_append Incident
  | Op_EntityIdentity string "Incident list"
  | Op_add_incident nat Incident
  | Op_create_identity_snapshot nat
  | Op_create_timeline_snapshot nat
  | Op_create_system_snapshot string
  | Op_create_relationship_snapshot string string
  | Op_create_temporal_snapshot string string
  | Op_delete_snapshot string
  | Op_regenerate_all_snapshots

fun exec :: "string \<Rightarrow> op \<Rightarrow> world \<Rightarrow> world" where
  "exec now (Op_append i) w =
     w\<lparr>generator := (generator w)\<lparr>incident_log :=
          IncidentLog_append (incident_log (generator w)) i\<rparr>\<rparr>"
| "exec now (Op_EntityIdentity eid incs) w =
     (case EntityIdentity_new eid incs of
        Inl e \<Rightarrow> w
      | Inr obj \<Rightarrow> w\<lparr>entity_objs := entity_objs w @ [obj]\<rparr>)"
| "exec now (Op_add_incident k i) w =
     (if k < length (entity_objs w)
      then (case add_incident (entity_objs w ! k) i of
              Inl e \<Rightarrow> w
            | Inr obj \<Rightarrow> w\<lparr>entity_objs := (entity_objs w)[k := obj]\<rparr>)
      else w)"
| "exec now (Op_create_identity_snapshot k) w =
     (if k < length (entity_objs w)
      then w\<lparr>generator := snd (create_identity_snapshot (entity_objs w ! k) now (generator w))\<rparr>
      else w)"
| "exec now (Op_create_timeline_snapshot k) w =
     (if k < length (entity_objs w)
      then w\<lparr>generator := snd (create_timeline_snapshot (entity_objs w ! k) now (generator w))\<rparr>
      else w)"
| "exec now (Op_create_system_snapshot sys) w =
     w\<lparr>generator := snd (create_system_snapshot sys now (generator w))\<rparr>"
| "exec now (Op_create_relationship_snapshot a b) w =
     w\<lparr>generator := snd (create_relationship_snapshot a b now (generator w))\<rparr>"
| "exec now (Op_create_temporal_snapshot a b) w =
     w\<lparr>generator := snd (create_temporal_snapshot a b now (generator w))\<rparr>"
| "exec now (Op_delete_snapshot eid) w =
     w\<lparr>generator := delete_snapshot eid (generator w)\<rparr>"
| "exec now Op_regenerate_all_snapshots w =
     w\<lparr>generator := regenerate_all_snapshots (generator w)\<rparr>"

text \<open>A sequence of calls, each with the clock reading at the call.\<close>

definition run :: "(string \<times> op) list \<Rightarrow> world \<Rightarrow> world" where
  "run calls w = fold (\<lambda>c. exec (fst c) (snd c)) calls w"

section \<open>core/meaning_overlay.py\<close>

datatype MeaningSource =
    ETYMOLOGY
  | CULTURAL_USAGE
  | GEOGRAPHIC_CONTEXT
  | NARRATIVE_ROLE
  | TECHNICAL_DEFINITION
  | HISTORICAL_CONTEXT

definition MeaningSource_members :: "MeaningSource list" where
  "MeaningSource_members =
     [ETYMOLOGY, CULTURAL_USAGE, GEOGRAPHIC_CONTEXT, NARRATIVE_ROLE,
      TECHNICAL_DEFINITION, HISTORICAL_CONTEXT]"

text \<open>\<open>str(member)\<close>, as the f-strings of the error messages print it.\<close>

fun MeaningSource_str :: "MeaningSource \<Rightarrow> string" where
  "MeaningSource_str ETYMOLOGY = ''MeaningSource.ETYMOLOGY''"
| "MeaningSource_str CULTURAL_USAGE = ''MeaningSource.CULTURAL_USAGE''"
| "MeaningSource_str GEOGRAPHIC_CONTEXT = ''MeaningSource.GEOGRAPHIC_CONTEXT''"
| "MeaningSource_str NARRATIVE_ROLE = ''MeaningSource.NARRATIVE_ROLE''"
| "MeaningSource_str TECHNICAL_DEFINITION = ''MeaningSource.TECHNICAL_DEFINITION''"
| "MeaningSource_str HISTORICAL_CONTEXT = ''MeaningSource.HISTORICAL_CONTEXT''"

text \<open>The fields \<open>term\<close>, \<open>source\<close>, \<open>definition\<close> and \<open>context\<close> of \<open>MeaningEntry\<close> carry
  the prefix \<open>me_\<close>, and \<open>source\<close> of \<open>MeaningLayer\<close> the prefix \<open>ml_\<close>.\<close>

record MeaningEntry =
  me_term :: string
  me_source :: MeaningSource
  me_definition :: string
  usage_examples :: "string list"
  me_context :: "(string \<times> pyval) list"
  constraints :: "string list"
  related_terms :: "string list"

definition MeaningEntry_forbidden_phrases :: "string list" where
  "MeaningEntry_forbidden_phrases =
     [''should'', ''must'', ''will'', ''predict'', ''optimize'',
      ''must do'', ''will do'', ''should be'', ''ought to'']"

definition MeaningEntry_post_init :: "MeaningEntry \<Rightarrow> error + unit" where
  "MeaningEntry_post_init self =
     (if me_term self = [] then Inl (ValueError ''term cannot be empty'')
      else if me_definition self = [] then Inl (ValueError ''definition cannot be empty'')
      else (case find (\<lambda>phrase. str_contains phrase (lower (me_definition self)))
                   MeaningEntry_forbidden_phrases of
              Some phrase \<Rightarrow>
                Inl (ValueError (''Definition contains prescriptive language: '' @ phrase))
            | None \<Rightarrow> Inr ()))"

definition MeaningEntry_new ::
  "string \<Rightarrow> MeaningSource \<Rightarrow> string \<Rightarrow> string list \<Rightarrow> (string \<times> pyval) list \<Rightarrow>
   string list \<Rightarrow> string list \<Rightarrow> error + MeaningEntry" where
  "MeaningEntry_new t src dfn ex ctx cs rel =
     (let self = \<lparr>me_term = t, me_source = src, me_definition = dfn, usage_examples = ex,
                  me_context = ctx, constraints = cs, related_terms = rel\<rparr>
      in case MeaningEntry_post_init self of Inl e \<Rightarrow> Inl e | Inr u \<Rightarrow> Inr self)"

record MeaningLayer =
  ml_source :: MeaningSource
  entries :: "string \<rightharpoonup> MeaningEntry"

definition MeaningLayer_new :: "MeaningSource \<Rightarrow> MeaningLayer" where
  "MeaningLayer_new src = \<lparr>ml_source = src, entries = Map.empty\<rparr>"

definition add_entry :: "MeaningLayer \<Rightarrow> MeaningEntry \<Rightarrow> error + MeaningLayer" where
  "add_entry self entry =
     (if me_source entry \<noteq> ml_source self
      then Inl (ValueError (''Entry source '' @ MeaningSource_str (me_source entry)
                            @ '' does not match layer source ''
                            @ MeaningSource_str (ml_source self)))
      else Inr (self\<lparr>entries := (entries self)(me_term entry \<mapsto> entry)\<rparr>))"

definition get_entry :: "MeaningLayer \<Rightarrow> string \<Rightarrow> MeaningEntry option" where
  "get_entry self t = entries self t"

record MeaningOverlay =
  layers :: "MeaningSource \<rightharpoonup> MeaningLayer"

definition MeaningOverlay_init :: MeaningOverlay where
  "MeaningOverlay_init =
     \<lparr>layers = map_of (map (\<lambda>src. (src, MeaningLayer_new src)) MeaningSource_members)\<rparr>"

text \<open>\<open>self.layers[entry.source]\<close> raises \<open>KeyError\<close> on a missing key; \<open>add_entry\<close> updates
  the layer object that the dictionary holds.\<close>

definition add_meaning :: "MeaningOverlay \<Rightarrow> MeaningEntry \<Rightarrow> error + MeaningOverlay" where
  "add_meaning self entry =
     (case layers self (me_source entry) of
        None \<Rightarrow> Inl (KeyError (MeaningSource_str (me_source entry)))
      | Some layer \<Rightarrow>
          bind_err (add_entry layer entry) (\<lambda>layer'.
            Inr (self\<lparr>layers := (layers self)(me_source entry \<mapsto> layer')\<rparr>)))"

definition get_layer :: "MeaningOverlay \<Rightarrow> MeaningSource \<Rightarrow> error + MeaningLayer" where
  "get_layer self src =
     (case layers self src of
        None \<Rightarrow> Inl (KeyError (MeaningSource_str src))
      | Some layer \<Rightarrow> Inr layer)"

text \<open>The calls of a client that change an overlay: \<open>add_meaning(entry)\<close>, and
  \<open>get_layer(source).add_entry(entry)\<close> on the layer object handed out. A call that raises
  leaves the overlay unchanged.\<close>

datatype overlay_op =
    Ov_add_meaning MeaningEntry
  | Ov_layer_add_entry MeaningSource MeaningEntry

fun overlay_exec :: "overlay_op \<Rightarrow> MeaningOverlay \<Rightarrow> MeaningOverlay" where
  "overlay_exec (Ov_add_meaning entry) ov =
     (case add_meaning ov entry of Inl e \<Rightarrow> ov | Inr ov' \<Rightarrow> ov')"
| "overlay_exec (Ov_layer_add_entry src entry) ov =
     (case bind_err (get_layer ov src) (\<lambda>layer. add_entry layer entry) of
        Inl e \<Rightarrow> ov
      | Inr layer' \<Rightarrow> ov\<lparr>layers := (layers ov)(src \<mapsto> layer')\<rparr>)"

section \<open>core/validator.py\<close>

text \<open>The forbidden patterns use four constructs of \<open>re\<close>: the word boundary \<open>\b\<close>, literal
  text, \<open>\s+\<close> and a group of literal alternatives. A pattern is the sequence of its
  items; \<open>pattern_source\<close> prints the raw string of the source, which is what the error
  message shows.\<close>

datatype rx =
    WordB
  | Lit string
  | Spaces
  | Alt "string list"

fun join_bar :: "string list \<Rightarrow> string" where
  "join_bar [] = []"
| "join_bar [a] = a"
| "join_bar (a # b # rest) = a @ ''|'' @ join_bar (b # rest)"

fun rx_source :: "rx \<Rightarrow> string" where
  "rx_source WordB = [CHR 0x5C, CHR ''b'']"
| "rx_source (Lit l) = l"
| "rx_source Spaces = [CHR 0x5C, CHR ''s'', CHR ''+'']"
| "rx_source (Alt ls) = ''('' @ join_bar ls @ '')''"

definition pattern_source :: "rx list \<Rightarrow> string" where
  "pattern_source p = concat (map rx_source p)"

text \<open>The classes \<open>\w\<close> and \<open>\s\<close> of a \<open>str\<close> pattern on code points below 256.\<close>

definition is_word_char :: "char \<Rightarrow> bool" where
  "is_word_char c =
     (let n = (of_char c :: nat) in
      (48 \<le> n \<and> n \<le> 57) \<or> (65 \<le> n \<and> n \<le> 90) \<or> n = 95 \<or> (97 \<le> n \<and> n \<le> 122)
      \<or> n \<in> {170, 178, 179, 181, 185, 186, 188, 189, 190}
      \<or> (192 \<le> n \<and> n \<le> 255 \<and> n \<noteq> 215 \<and> n \<noteq> 247))"

definition is_space_char :: "char \<Rightarrow> bool" where
  "is_space_char c =
     (let n = (of_char c :: nat) in
      (9 \<le> n \<and> n \<le> 13) \<or> (28 \<le> n \<and> n \<le> 32) \<or> n = 133 \<or> n = 160)"

text \<open>Outside the string there is no word character.\<close>

fun word_at :: "char option \<Rightarrow> bool" where
  "word_at None = False"
| "word_at (Some c) = is_word_char c"

fun first_char :: "string \<Rightarrow> char option" where
  "first_char [] = None"
| "first_char (c # cs) = Some c"

definition after_lit :: "char option \<Rightarrow> string \<Rightarrow> char option" where
  "after_lit prev l = (if l = [] then prev else Some (last l))"

text \<open>\<open>rx_match p prev s\<close>: the pattern matches at the start of \<open>s\<close>, where \<open>prev\<close> is the
  character before that position. \<open>\s+\<close> takes one or more spaces, and every split is
  tried, as backtracking does.\<close>

fun rx_match :: "rx list \<Rightarrow> char option \<Rightarrow> string \<Rightarrow> bool" where
  "rx_match [] prev s = True"
| "rx_match (WordB # r) prev s =
     (word_at prev \<noteq> word_at (first_char s) \<and> rx_match r prev s)"
| "rx_match (Lit l # r) prev s =
     (prefix l s \<and> rx_match r (after_lit prev l) (drop (length l) s))"
| "rx_match (Spaces # r) prev [] = False"
| "rx_match (Spaces # r) prev (c # cs) =
     (is_space_char c \<and> (rx_match r (Some c) cs \<or> rx_match (Spaces # r) (Some c) cs))"
| "rx_match (Alt ls # r) prev s =
     list_ex (\<lambda>l. prefix l s \<and> rx_match r (after_lit prev l) (drop (length l) s)) ls"

text \<open>\<open>re.search\<close>: a match at some position of the string, the end included.\<close>

fun rx_search_from :: "rx list \<Rightarrow> char option \<Rightarrow> string \<Rightarrow> bool" where
  "rx_search_from p prev [] = rx_match p prev []"
| "rx_search_from p prev (c # cs) = (rx_match p prev (c # cs) \<or> rx_search_from p (Some c) cs)"

definition re_search :: "rx list \<Rightarrow> string \<Rightarrow> bool" where
  "re_search p s = rx_search_from p None s"

definition FORBIDDEN_PATTERNS :: "rx list list" where
  "FORBIDDEN_PATTERNS =
     [[WordB, Lit ''will'', Spaces, Alt [''do'', ''be'', ''happen'', ''occur'']],
      [WordB, Lit ''should'', Spaces, Alt [''do'', ''be'']],
      [WordB, Lit ''must'', Spaces, Alt [''do'', ''be'']],
      [WordB, Lit ''predict''],
      [WordB, Lit ''optimize''],
      [WordB, Lit ''recommend''],
      [WordB, Lit ''should'', Spaces],
      [WordB, Lit ''will'', Spaces],
      [WordB, Lit ''destiny''],
      [WordB, Lit ''fate''],
      [WordB, Lit ''meant'', Spaces, Lit ''to''],
      [WordB, Lit ''supposed'', Spaces, Lit ''to''],
      [WordB, Lit ''will'', Spaces, Lit ''happen''],
      [WordB, Lit ''will'', Spaces, Lit ''occur''],
      [WordB, Lit ''will'', Spaces, Lit ''be''],
      [WordB, Lit ''will'', Spaces, Lit ''do''],
      [WordB, Lit ''should'', Spaces, Lit ''happen''],
      [WordB, Lit ''should'', Spaces, Lit ''occur''],
      [WordB, Lit ''should'', Spaces, Lit ''be''],
      [WordB, Lit ''should'', Spaces, Lit ''do''],
      [WordB, Lit ''must'', Spaces, Lit ''happen''],
      [WordB, Lit ''must'', Spaces, Lit ''occur''],
      [WordB, Lit ''must'', Spaces, Lit ''be''],
      [WordB, Lit ''must'', Spaces, Lit ''do'']]"

text \<open>The loop of \<open>validate_fact\<close> over the patterns: it returns at the first pattern found
  in the lowered fact.\<close>

fun validate_fact_loop :: "rx list list \<Rightarrow> string \<Rightarrow> bool \<times> string" where
  "validate_fact_loop [] fact_lower = (True, [])"
| "validate_fact_loop (pattern # rest) fact_lower =
     (if re_search pattern fact_lower
      then (False, ''Fact contains forbidden pattern: '' @ pattern_source pattern)
      else validate_fact_loop rest fact_lower)"

definition validate_fact :: "string \<Rightarrow> bool \<times> string" where
  "validate_fact f = validate_fact_loop FORBIDDEN_PATTERNS (lower f)"

section \<open>Incident objects and the containers they refer to\<close>

text \<open>
  A Python list or dict is an object of its own, and a field of an \<open>Incident\<close> that holds
  one holds a reference to it: the constructor stores the very lists and dicts it is
  given, and \<open>to_dict\<close> puts \<open>self.participants\<close>, \<open>self.facts\<close>, \<open>self.context\<close> and
  \<open>self.metadata\<close> themselves into the dictionary it returns. Where that sharing matters
  an incident is an \<open>Incident_obj\<close> over a store of containers, and the record \<open>Incident\<close>
  used elsewhere is what the object shows in a given store (\<open>Incident_view\<close>).
\<close>

type_synonym addr = nat

record store =
  list_objs :: "addr \<rightharpoonup> string list"
  dict_objs :: "addr \<rightharpoonup> (string \<times> pyval) list"

record Incident_obj =
  ref_incident_id :: string
  ref_date :: string
  ref_system :: string
  ref_incident_type :: IncidentType
  ref_participants :: addr
  ref_facts :: addr
  ref_context :: addr
  ref_summary :: string
  ref_outcome :: string
  ref_metadata :: addr

definition Incident_view :: "store \<Rightarrow> Incident_obj \<Rightarrow> Incident option" where
  "Incident_view st self =
     (case list_objs st (ref_participants self) of None \<Rightarrow> None | Some ps \<Rightarrow>
      case list_objs st (ref_facts self) of None \<Rightarrow> None | Some fs \<Rightarrow>
      case dict_objs st (ref_context self) of None \<Rightarrow> None | Some ctx \<Rightarrow>
      case dict_objs st (ref_metadata self) of None \<Rightarrow> None | Some md \<Rightarrow>
        Some \<lparr>incident_id = ref_incident_id self, date = ref_date self,
              system = ref_system self, incident_type = ref_incident_type self,
              participants = ps, facts = fs, incident_context = ctx,
              summary = ref_summary self, outcome = ref_outcome self, metadata = md\<rparr>)"

text \<open>The constructor on references: the fields are stored as given and \<open>__post_init__\<close>
  reads the containers as they are at that moment. A reference to no object cannot be
  passed; it is a \<open>TypeError\<close> here.\<close>

definition Incident_obj_new ::
  "store \<Rightarrow> string \<Rightarrow> string \<Rightarrow> string \<Rightarrow> IncidentType \<Rightarrow> addr \<Rightarrow> addr \<Rightarrow> addr \<Rightarrow>
   string \<Rightarrow> string \<Rightarrow> addr \<Rightarrow> error + Incident_obj" where
  "Incident_obj_new st iid d sys ty ps fs ctx summ outc md =
     (let self = \<lparr>ref_incident_id = iid, ref_date = d, ref_system = sys,
                  ref_incident_type = ty, ref_participants = ps, ref_facts = fs,
                  ref_context = ctx, ref_summary = summ, ref_outcome = outc,
                  ref_metadata = md\<rparr>
      in case Incident_view st self of
           None \<Rightarrow> Inl (TypeError ''not an object'')
         | Some v \<Rightarrow> (case Incident_post_init v of Inl e \<Rightarrow> Inl e | Inr u \<Rightarrow> Inr self))"

text \<open>The values of the dictionary that \<open>to_dict\<close> returns: strings, and the references
  that the incident itself holds.\<close>

datatype rval =
    RStr string
  | RList addr
  | RDict addr

definition Incident_obj_to_dict :: "Incident_obj \<Rightarrow> (string \<times> rval) list" where
  "Incident_obj_to_dict self =
     [(''incident_id'', RStr (ref_incident_id self)),
      (''date'', RStr (ref_date self)),
      (''system'', RStr (ref_system self)),
      (''incident_type'', RStr (IncidentType_value (ref_incident_type self))),
      (''participants'', RList (ref_participants self)),
      (''facts'', RList (ref_facts self)),
      (''context'', RDict (ref_context self)),
      (''summary'', RStr (ref_summary self)),
      (''outcome'', RStr (ref_outcome self)),
      (''metadata'', RDict (ref_metadata self))]"

text \<open>What a dictionary of references shows in a store.\<close>

fun resolve_val :: "store \<Rightarrow> rval \<Rightarrow> pyval option" where
  "resolve_val st (RStr s) = Some (PStr s)"
| "resolve_val st (RList a) = map_option (\<lambda>xs. PList (map PStr xs)) (list_objs st a)"
| "resolve_val st (RDict a) = map_option PDict (dict_objs st a)"

fun resolve_dict :: "store \<Rightarrow> (string \<times> rval) list \<Rightarrow> (string \<times> pyval) list option" where
  "resolve_dict st [] = Some []"
| "resolve_dict st (kv # rest) =
     (case resolve_val st (snd kv) of
        None \<Rightarrow> None
      | Some v \<Rightarrow> map_option (\<lambda>r. (fst kv, v) # r) (resolve_dict st rest))"

text \<open>What a holder of such a dictionary can do with it, by the language alone:
  \<open>lst.append(x)\<close> changes the list object in place, and \<open>d[key].append(x)\<close> does so on the
  list that the dictionary holds under \<open>key\<close>.\<close>

definition list_append :: "addr \<Rightarrow> string \<Rightarrow> store \<Rightarrow> store" where
  "list_append a x st =
     (case list_objs st a of
        None \<Rightarrow> st
      | Some xs \<Rightarrow> st\<lparr>list_objs := (list_objs st)(a \<mapsto> xs @ [x])\<rparr>)"

definition append_to_entry ::
  "(string \<times> rval) list \<Rightarrow> string \<Rightarrow> string \<Rightarrow> store \<Rightarrow> error + store" where
  "append_to_entry d k x st =
     (case map_of d k of
        None \<Rightarrow> Inl (KeyError k)
      | Some (RList a) \<Rightarrow> Inr (list_append a x st)
      | Some v \<Rightarrow> Inl (AttributeError ''append''))"

text \<open>\<open>Incident\<close> is declared with a plain \<open>@dataclass\<close>, not \<open>@dataclass(frozen=True)\<close>, so
  an assignment \<open>incident.facts = lst\<close> rebinds the field; nothing raises and
  \<open>__post_init__\<close> does not run again.\<close>

definition Incident_obj_set_facts :: "Incident_obj \<Rightarrow> addr \<Rightarrow> error + Incident_obj" where
  "Incident_obj_set_facts self a = Inr (self\<lparr>ref_facts := a\<rparr>)"

section \<open>Auxiliary notions and example data\<close>

text \<open>The five messages of the emptiness checks of \<open>Incident.__post_init__\<close>.\<close>

definition empty_field_messages :: "string list" where
  "empty_field_messages =
     [''incident_id cannot be empty'', ''date cannot be empty'', ''system cannot be empty'',
      ''participants cannot be empty'', ''facts cannot be empty'']"

definition meeting_incident :: Incident where
  "meeting_incident =
     \<lparr>incident_id = ''i1'', date = ''2024-01-01'', system = ''A'',
      incident_type = OBSERVATION, participants = [''x''],
      facts = [''The meeting occurred at 3pm''], incident_context = [], summary = [],
      outcome = [], metadata = []\<rparr>"

definition meeting_world :: world where
  "meeting_world =
     \<lparr>generator = SnapshotGenerator_init [meeting_incident],
      entity_objs = [\<lparr>entity_id = ''x'', incidents = [meeting_incident]\<rparr>]\<rparr>"

definition jan_incident :: Incident where
  "jan_incident = meeting_incident\<lparr>incident_id := ''jan'', date := ''2024-01-01''\<rparr>"

definition mar_incident :: Incident where
  "mar_incident = meeting_incident\<lparr>incident_id := ''mar'', date := ''2024-03-01''\<rparr>"

definition feb_incident :: Incident where
  "feb_incident = meeting_incident\<lparr>incident_id := ''feb'', date := ''2024-02-01''\<rparr>"

text \<open>The \<open>first_seen\<close> entry of an entity in a dictionary of summaries.\<close>

definition first_seen_of :: "(string \<rightharpoonup> EntitySummary) \<Rightarrow> string \<Rightarrow> string option" where
  "first_seen_of m x = map_option es_first_seen (m x)"

definition later_incident :: Incident where
  "later_incident = meeting_incident\<lparr>incident_id := ''i1'', date := ''2024-01-02''\<rparr>"

definition earlier_incident :: Incident where
  "earlier_incident = meeting_incident\<lparr>incident_id := ''i2'', date := ''2024-01-01''\<rparr>"

definition elsewhere_incident :: Incident where
  "elsewhere_incident =
     meeting_incident\<lparr>incident_id := ''i0'', date := ''2023-12-31'', system := ''B''\<rparr>"

text \<open>The state right after \<open>SnapshotGenerator(log)\<close>, with the entities alive then.\<close>

definition fresh_world :: "IncidentLog \<Rightarrow> EntityIdentity list \<Rightarrow> world" where
  "fresh_world log ents = \<lparr>generator = SnapshotGenerator_init log, entity_objs = ents\<rparr>"

text \<open>A sequence of calls on an overlay.\<close>

definition overlay_run :: "overlay_op list \<Rightarrow> MeaningOverlay \<Rightarrow> MeaningOverlay" where
  "overlay_run calls ov = fold overlay_exec calls ov"

text \<open>Every source is a key of \<open>layers\<close>, and the layer under it has that source.\<close>

definition layers_keyed :: "MeaningOverlay \<Rightarrow> bool" where
  "layers_keyed ov =
     list_all (\<lambda>src. case layers ov src of None \<Rightarrow> False | Some layer \<Rightarrow> ml_source layer = src)
       MeaningSource_members"

definition water_entry :: MeaningEntry where
  "water_entry =
     \<lparr>me_term = ''water'', me_source = ETYMOLOGY, me_definition = ''Etymology: Old English'',
      usage_examples = [], me_context = [], constraints = [], related_terms = []\<rparr>"

definition history_entry :: MeaningEntry where
  "history_entry = water_entry\<lparr>me_source := HISTORICAL_CONTEXT\<rparr>"

text \<open>The phrases of \<open>Incident_forbidden_phrases\<close> that the list of \<open>MeaningEntry\<close> does not
  have.\<close>

definition Incident_only_phrases :: "string list" where
  "Incident_only_phrases =
     [''best'', ''worst'', ''good'', ''bad'', ''right'', ''wrong'',
      ''destiny'', ''fate'', ''meant to'', ''supposed to'']"

text \<open>The containers of the example incident, and the incident constructed on them.\<close>

definition meeting_store :: store where
  "meeting_store =
     \<lparr>list_objs = [0 \<mapsto> [''x''], 1 \<mapsto> [''The meeting occurred at 3pm'']],
      dict_objs = [2 \<mapsto> [], 3 \<mapsto> []]\<rparr>"

definition meeting_obj :: Incident_obj where
  "meeting_obj =
     \<lparr>ref_incident_id = ''i1'', ref_date = ''2024-01-01'', ref_system = ''A'',
      ref_incident_type = OBSERVATION, ref_participants = 0, ref_facts = 1,
      ref_context = 2, ref_summary = [], ref_outcome = [], ref_metadata = 3\<rparr>"

section \<open>Properties\<close>

subsection \<open>EntityIdentity.add_incident\<close>

lemma add_incident_always_raises:
  "add_incident e i = Inl (AttributeError ''entity_id'')"
  by (simp add: add_incident_def Incident_getattr_def Incident_vars_def bind_err_def)

text \<open>
  C1. \<open>add_incident(i)\<close> is to reject an incident whose participants do not include the
  entity and to append any other one. On the entity \<open>x\<close> without incidents and the validly
  constructed incident \<open>meeting_incident\<close>, whose participants are \<open>[x]\<close>, the call raises
  \<open>AttributeError\<close>, because the method reads \<open>incident.entity_id\<close> and an \<open>Incident\<close> has no
  such attribute; nothing is appended.
\<close>

theorem add_incident_participant_raises:
  "EntityIdentity_new ''x'' [] = Inr \<lparr>entity_id = ''x'', incidents = []\<rparr> \<and>
   Incident_new ''i1'' ''2024-01-01'' ''A'' OBSERVATION [''x'']
       [''The meeting occurred at 3pm''] [] [] [] [] = Inr meeting_incident \<and>
   ''x'' \<in> set (participants meeting_incident) \<and>
   add_incident \<lparr>entity_id = ''x'', incidents = []\<rparr> meeting_incident
     = Inl (AttributeError ''entity_id'')"
  by code_simp

subsection \<open>Incident construction\<close>

lemma check_facts_ok_iff:
  "check_facts fs = Inr u \<longleftrightarrow>
     (\<forall>f\<in>set fs. \<forall>p\<in>set Incident_forbidden_phrases. \<not> str_contains p (lower f))"
proof (induction fs)
  case Nil
  show ?case by simp
next
  case (Cons f rest)
  show ?case
  proof (cases "find (\<lambda>phrase. str_contains phrase (lower f)) Incident_forbidden_phrases")
    case None
    then have "\<forall>p\<in>set Incident_forbidden_phrases. \<not> str_contains p (lower f)"
      by (simp add: find_None_iff)
    with None Cons.IH show ?thesis by simp
  next
    case (Some p)
    then have "p \<in> set Incident_forbidden_phrases \<and> str_contains p (lower f)"
      by (auto simp: find_Some_iff)
    with Some show ?thesis by auto
  qed
qed

lemma check_facts_error:
  "check_facts fs = Inl e \<Longrightarrow>
     \<exists>f\<in>set fs. \<exists>p\<in>set Incident_forbidden_phrases.
       str_contains p (lower f) \<and> e = ValueError (fact_message p f)"
proof (induction fs)
  case Nil
  then show ?case by simp
next
  case (Cons f rest)
  show ?case
  proof (cases "find (\<lambda>phrase. str_contains phrase (lower f)) Incident_forbidden_phrases")
    case None
    with Cons show ?thesis by auto
  next
    case (Some p)
    then have "p \<in> set Incident_forbidden_phrases \<and> str_contains p (lower f)"
      by (auto simp: find_Some_iff)
    with Some Cons.prems show ?thesis by auto
  qed
qed

lemma Incident_new_ok:
  assumes "iid \<noteq> []" "d \<noteq> []" "sys \<noteq> []" "ps \<noteq> []" "fs \<noteq> []"
    and "\<forall>f\<in>set fs. \<forall>p\<in>set Incident_forbidden_phrases. \<not> str_contains p (lower f)"
  shows "Incident_new iid d sys ty ps fs ctx summ outc md =
           Inr \<lparr>incident_id = iid, date = d, system = sys, incident_type = ty,
                participants = ps, facts = fs, incident_context = ctx, summary = summ,
                outcome = outc, metadata = md\<rparr>"
proof -
  from assms(6) have "check_facts fs = Inr ()" by (simp add: check_facts_ok_iff)
  with assms(1-5) show ?thesis
    by (simp add: Incident_new_def Incident_post_init_def)
qed

lemma Incident_new_bad:
  assumes "iid = [] \<or> d = [] \<or> sys = [] \<or> ps = [] \<or> fs = [] \<or>
           (\<exists>f\<in>set fs. \<exists>p\<in>set Incident_forbidden_phrases. str_contains p (lower f))"
  shows "\<exists>msg. Incident_new iid d sys ty ps fs ctx summ outc md = Inl (ValueError msg) \<and>
           (msg \<in> set empty_field_messages \<or>
            (\<exists>f\<in>set fs. \<exists>p\<in>set Incident_forbidden_phrases.
               str_contains p (lower f) \<and> msg = fact_message p f))"
proof (cases "iid = [] \<or> d = [] \<or> sys = [] \<or> ps = [] \<or> fs = []")
  case True
  then show ?thesis
    by (auto simp: Incident_new_def Incident_post_init_def empty_field_messages_def Let_def)
next
  case False
  with assms have "\<not> (\<forall>f\<in>set fs. \<forall>p\<in>set Incident_forbidden_phrases.
                        \<not> str_contains p (lower f))"
    by blast
  then have "check_facts fs \<noteq> Inr ()" by (simp add: check_facts_ok_iff)
  then obtain e where e: "check_facts fs = Inl e" by (cases "check_facts fs") auto
  from check_facts_error[OF e] obtain f p where
    "f \<in> set fs" "p \<in> set Incident_forbidden_phrases" "str_contains p (lower f)"
    "e = ValueError (fact_message p f)" by blast
  with e False show ?thesis
    by (auto simp: Incident_new_def Incident_post_init_def Let_def)
qed

text \<open>The construction checks, with the text of each message: the first empty field in
  the order \<open>incident_id\<close>, \<open>date\<close>, \<open>system\<close>, \<open>participants\<close>, \<open>facts\<close> is named, then a
  forbidden phrase is quoted with its fact, and otherwise the incident is returned.\<close>

lemma Incident_construction_messages:
  "(iid = [] \<longrightarrow> Incident_new iid d sys ty ps fs ctx summ outc md
        = Inl (ValueError ''incident_id cannot be empty''))
   \<and> (iid \<noteq> [] \<and> d = [] \<longrightarrow> Incident_new iid d sys ty ps fs ctx summ outc md
        = Inl (ValueError ''date cannot be empty''))
   \<and> (iid \<noteq> [] \<and> d \<noteq> [] \<and> sys = [] \<longrightarrow> Incident_new iid d sys ty ps fs ctx summ outc md
        = Inl (ValueError ''system cannot be empty''))
   \<and> (iid \<noteq> [] \<and> d \<noteq> [] \<and> sys \<noteq> [] \<and> ps = []
        \<longrightarrow> Incident_new iid d sys ty ps fs ctx summ outc md
        = Inl (ValueError ''participants cannot be empty''))
   \<and> (iid \<noteq> [] \<and> d \<noteq> [] \<and> sys \<noteq> [] \<and> ps \<noteq> [] \<and> fs = []
        \<longrightarrow> Incident_new iid d sys ty ps fs ctx summ outc md
        = Inl (ValueError ''facts cannot be empty''))
   \<and> (iid \<noteq> [] \<and> d \<noteq> [] \<and> sys \<noteq> [] \<and> ps \<noteq> [] \<and> fs \<noteq> [] \<and>
       (\<exists>f\<in>set fs. \<exists>p\<in>set Incident_forbidden_phrases. str_contains p (lower f))
        \<longrightarrow> (\<exists>f\<in>set fs. \<exists>p\<in>set Incident_forbidden_phrases. str_contains p (lower f) \<and>
              Incident_new iid d sys ty ps fs ctx summ outc md
                = Inl (ValueError (''Fact contains prescriptive language '' @ [CHR 0x27] @ p
                                   @ [CHR 0x27] @ '': '' @ f))))
   \<and> (iid \<noteq> [] \<and> d \<noteq> [] \<and> sys \<noteq> [] \<and> ps \<noteq> [] \<and> fs \<noteq> [] \<and>
       (\<forall>f\<in>set fs. \<forall>p\<in>set Incident_forbidden_phrases. \<not> str_contains p (lower f))
        \<longrightarrow> Incident_new iid d sys ty ps fs ctx summ outc md
           = Inr \<lparr>incident_id = iid, date = d, system = sys, incident_type = ty,
                  participants = ps, facts = fs, incident_context = ctx, summary = summ,
                  outcome = outc, metadata = md\<rparr>)"
proof (intro conjI impI)
  assume a: "iid \<noteq> [] \<and> d \<noteq> [] \<and> sys \<noteq> [] \<and> ps \<noteq> [] \<and> fs \<noteq> [] \<and>
       (\<exists>f\<in>set fs. \<exists>p\<in>set Incident_forbidden_phrases. str_contains p (lower f))"
  then have "check_facts fs \<noteq> Inr ()" by (simp add: check_facts_ok_iff)
  then obtain e where e: "check_facts fs = Inl e" by (cases "check_facts fs") auto
  from check_facts_error[OF e] obtain f p where
    fp: "f \<in> set fs" "p \<in> set Incident_forbidden_phrases" "str_contains p (lower f)"
    "e = ValueError (fact_message p f)" by blast
  from a e fp(4) have "Incident_new iid d sys ty ps fs ctx summ outc md
      = Inl (ValueError (''Fact contains prescriptive language '' @ [CHR 0x27] @ p
                                   @ [CHR 0x27] @ '': '' @ f))"
    by (simp add: Incident_new_def Incident_post_init_def Let_def fact_message_def)
  with fp(1-3) show "\<exists>f\<in>set fs. \<exists>p\<in>set Incident_forbidden_phrases. str_contains p (lower f) \<and>
      Incident_new iid d sys ty ps fs ctx summ outc md
        = Inl (ValueError (''Fact contains prescriptive language '' @ [CHR 0x27] @ p
                                   @ [CHR 0x27] @ '': '' @ f))"
    by blast
next
  assume "iid \<noteq> [] \<and> d \<noteq> [] \<and> sys \<noteq> [] \<and> ps \<noteq> [] \<and> fs \<noteq> [] \<and>
       (\<forall>f\<in>set fs. \<forall>p\<in>set Incident_forbidden_phrases. \<not> str_contains p (lower f))"
  then show "Incident_new iid d sys ty ps fs ctx summ outc md
           = Inr \<lparr>incident_id = iid, date = d, system = sys, incident_type = ty,
                  participants = ps, facts = fs, incident_context = ctx, summary = summ,
                  outcome = outc, metadata = md\<rparr>"
    by (intro Incident_new_ok) blast+
qed (simp_all add: Incident_new_def Incident_post_init_def Let_def)

subsection \<open>Incident objects after construction\<close>

text \<open>The record view of an object is what the constructor on values builds from the
  containers' contents, and \<open>to_dict\<close> on the object shows the dictionary of the view.\<close>

lemma Incident_obj_new_view:
  assumes "Incident_obj_new st iid d sys ty ps fs ctx summ outc md = Inr obj"
  shows "\<exists>psv fsv ctxv mdv.
           list_objs st ps = Some psv \<and> list_objs st fs = Some fsv \<and>
           dict_objs st ctx = Some ctxv \<and> dict_objs st md = Some mdv \<and>
           Incident_new iid d sys ty psv fsv ctxv summ outc mdv
             = Inr (the (Incident_view st obj)) \<and>
           Incident_view st obj \<noteq> None"
  using assms
  by (auto simp: Incident_obj_new_def Incident_view_def Incident_new_def Let_def
      split: option.splits sum.splits)

lemma Incident_obj_to_dict_view:
  assumes "Incident_view st obj = Some v"
  shows "resolve_dict st (Incident_obj_to_dict obj) = Some (Incident_to_dict v)"
  using assms
  by (auto simp: Incident_view_def Incident_obj_to_dict_def Incident_to_dict_def
      split: option.splits)

text \<open>
  C3. Constructing an \<open>Incident\<close> validates its fields (lemma
  \<open>Incident_construction_messages\<close>), and the incident is to stay as constructed: the
  class documents \<open>Immutable after creation\<close>. It does not: the incident \<open>meeting_incident\<close>
  is constructed on its lists and passes the checks; \<open>to_dict()\<close> returns under \<open>facts\<close>
  the list object that the incident holds; appending \<open>This will happen tomorrow\<close> to that
  list raises nothing, and the incident then has two facts, the second one with the
  forbidden phrase \<open>will\<close> that construction rejects. Assigning another list to
  \<open>incident.facts\<close> raises nothing either and changes the incident's facts.
\<close>

theorem stored_incident_changes_through_to_dict:
  "Incident_obj_new meeting_store ''i1'' ''2024-01-01'' ''A'' OBSERVATION 0 1 2 [] [] 3
     = Inr meeting_obj
   \<and> Incident_view meeting_store meeting_obj = Some meeting_incident
   \<and> map_of (Incident_obj_to_dict meeting_obj) ''facts'' = Some (RList (ref_facts meeting_obj))
   \<and> append_to_entry (Incident_obj_to_dict meeting_obj) ''facts'' ''This will happen tomorrow''
       meeting_store
     = Inr (list_append 1 ''This will happen tomorrow'' meeting_store)
   \<and> Incident_view (list_append 1 ''This will happen tomorrow'' meeting_store) meeting_obj
     = Some (meeting_incident\<lparr>facts :=
               [''The meeting occurred at 3pm'', ''This will happen tomorrow'']\<rparr>)
   \<and> Incident_post_init (meeting_incident\<lparr>facts :=
               [''The meeting occurred at 3pm'', ''This will happen tomorrow'']\<rparr>)
     = Inl (ValueError (''Fact contains prescriptive language '' @ [CHR 0x27] @ ''will''
                        @ [CHR 0x27] @ '': This will happen tomorrow''))
   \<and> Incident_obj_set_facts meeting_obj 0 = Inr (meeting_obj\<lparr>ref_facts := 0\<rparr>)
   \<and> Incident_view meeting_store (meeting_obj\<lparr>ref_facts := 0\<rparr>)
     = Some (meeting_incident\<lparr>facts := [''x'']\<rparr>)"
proof (intro conjI)
  have v: "Incident_view meeting_store meeting_obj = Some meeting_incident"
    by (simp add: Incident_view_def meeting_store_def meeting_obj_def meeting_incident_def)
  show "Incident_view meeting_store meeting_obj = Some meeting_incident" by (rule v)
  have p: "Incident_post_init meeting_incident = Inr ()"
    by (simp add: Incident_post_init_def meeting_incident_def Incident_forbidden_phrases_def
        lower_def)
  have eq: "\<lparr>ref_incident_id = ''i1'', ref_date = ''2024-01-01'', ref_system = ''A'',
      ref_incident_type = OBSERVATION, ref_participants = 0, ref_facts = 1,
      ref_context = 2, ref_summary = [], ref_outcome = [], ref_metadata = 3\<rparr> = meeting_obj"
    by (simp only: meeting_obj_def)
  show "Incident_obj_new meeting_store ''i1'' ''2024-01-01'' ''A'' OBSERVATION 0 1 2 [] [] 3
     = Inr meeting_obj"
    unfolding Incident_obj_new_def Let_def eq by (simp only: v p option.case sum.case)
  show "map_of (Incident_obj_to_dict meeting_obj) ''facts'' = Some (RList (ref_facts meeting_obj))"
    by (simp add: Incident_obj_to_dict_def)
  show "append_to_entry (Incident_obj_to_dict meeting_obj) ''facts'' ''This will happen tomorrow''
       meeting_store
     = Inr (list_append 1 ''This will happen tomorrow'' meeting_store)"
    by (simp add: append_to_entry_def Incident_obj_to_dict_def meeting_obj_def)
  show "Incident_view (list_append 1 ''This will happen tomorrow'' meeting_store) meeting_obj
     = Some (meeting_incident\<lparr>facts :=
               [''The meeting occurred at 3pm'', ''This will happen tomorrow'']\<rparr>)"
    by (simp add: Incident_view_def list_append_def meeting_store_def meeting_obj_def
        meeting_incident_def)
  show "Incident_post_init (meeting_incident\<lparr>facts :=
               [''The meeting occurred at 3pm'', ''This will happen tomorrow'']\<rparr>)
     = Inl (ValueError (''Fact contains prescriptive language '' @ [CHR 0x27] @ ''will''
                        @ [CHR 0x27] @ '': This will happen tomorrow''))"
    by (simp add: Incident_post_init_def meeting_incident_def Incident_forbidden_phrases_def
        lower_def fact_message_def)
  show "Incident_obj_set_facts meeting_obj 0 = Inr (meeting_obj\<lparr>ref_facts := 0\<rparr>)"
    by (simp add: Incident_obj_set_facts_def)
  show "Incident_view meeting_store (meeting_obj\<lparr>ref_facts := 0\<rparr>)
     = Some (meeting_incident\<lparr>facts := [''x'']\<rparr>)"
    by (simp add: Incident_view_def meeting_store_def meeting_obj_def meeting_incident_def)
qed

subsection \<open>EntityIdentity.get_first_incident and get_last_incident\<close>

lemma min_from_mem: "min_from key b xs \<in> set (b # xs)"
  by (induction xs arbitrary: b) auto

lemma min_from_le: "\<forall>y\<in>set (b # xs). key (min_from key b xs) \<le> key y"
proof (induction xs arbitrary: b)
  case Nil
  show ?case by simp
next
  case (Cons x xs)
  show ?case
  proof (cases "key x < key b")
    case True
    from Cons.IH[of x] have ih: "\<forall>y\<in>set (x # xs). key (min_from key x xs) \<le> key y" .
    then have "key (min_from key x xs) \<le> key x" by simp
    with True have "key (min_from key x xs) \<le> key b" by simp
    with ih True show ?thesis by simp
  next
    case False
    from Cons.IH[of b] have ih: "\<forall>y\<in>set (b # xs). key (min_from key b xs) \<le> key y" .
    then have "key (min_from key b xs) \<le> key b" by simp
    with False have "key (min_from key b xs) \<le> key x" by simp
    with ih False show ?thesis by simp
  qed
qed

lemma max_from_mem: "max_from key b xs \<in> set (b # xs)"
  by (induction xs arbitrary: b) auto

lemma max_from_ge: "\<forall>y\<in>set (b # xs). key y \<le> key (max_from key b xs)"
proof (induction xs arbitrary: b)
  case Nil
  show ?case by simp
next
  case (Cons x xs)
  show ?case
  proof (cases "key b < key x")
    case True
    from Cons.IH[of x] have ih: "\<forall>y\<in>set (x # xs). key y \<le> key (max_from key x xs)" .
    then have "key x \<le> key (max_from key x xs)" by simp
    with True have "key b \<le> key (max_from key x xs)" by simp
    with ih True show ?thesis by simp
  next
    case False
    from Cons.IH[of b] have ih: "\<forall>y\<in>set (b # xs). key y \<le> key (max_from key b xs)" .
    then have "key b \<le> key (max_from key b xs)" by simp
    with False have "key x \<le> key (max_from key b xs)" by simp
    with ih False show ?thesis by simp
  qed
qed

lemma first_last_nonempty:
  assumes "incidents e \<noteq> []"
  shows "\<exists>i j. get_first_incident e = Some i \<and> get_last_incident e = Some j \<and>
           i \<in> set (incidents e) \<and> j \<in> set (incidents e) \<and>
           (\<forall>k\<in>set (incidents e). date i \<le> date k \<and> date k \<le> date j)"
proof -
  from assms obtain b xs where bx: "incidents e = b # xs" by (cases "incidents e") auto
  let ?i = "min_from date b xs" and ?j = "max_from date b xs"
  have "get_first_incident e = Some ?i" "get_last_incident e = Some ?j"
    by (simp_all add: get_first_incident_def get_last_incident_def bx)
  moreover have "?i \<in> set (incidents e)" "?j \<in> set (incidents e)"
    using min_from_mem[of date b xs] max_from_mem[of date b xs] bx by simp_all
  moreover have "\<forall>k\<in>set (incidents e). date ?i \<le> date k \<and> date k \<le> date ?j"
    using min_from_le[of b xs date] max_from_ge[of b xs date] bx by simp
  ultimately show ?thesis by blast
qed

lemma first_last_empty:
  "incidents e = [] \<Longrightarrow> get_first_incident e = None \<and> get_last_incident e = None"
  by (simp add: get_first_incident_def get_last_incident_def)

lemma first_last_three_gen:
  assumes s: "set (incidents e) = {a, b, c}"
    and lt: "date a < date c" "date c < date b"
  shows "get_first_incident e = Some a \<and> get_last_incident e = Some b"
proof -
  from s have "incidents e \<noteq> []" by auto
  from first_last_nonempty[OF this] obtain i j where
    ij: "get_first_incident e = Some i" "get_last_incident e = Some j"
      "i \<in> set (incidents e)" "j \<in> set (incidents e)"
      "\<forall>k\<in>set (incidents e). date i \<le> date k \<and> date k \<le> date j" by blast
  from ij(3,4) s have cases: "i = a \<or> i = b \<or> i = c" "j = a \<or> j = b \<or> j = c"
    by blast+
  from ij(5) s have le: "date i \<le> date a" "date b \<le> date j" by blast+
  from lt have ab: "date a < date b" by (rule less_trans)
  from cases(1) le(1) lt(1) ab have "i = a" by auto
  moreover from cases(2) le(2) lt(2) ab have "j = b" by auto
  ultimately show ?thesis using ij(1,2) by simp
qed

lemma first_last_three:
  assumes m: "mset (incidents e) = {#jan, mar, feb#}"
    and d: "date jan = ''2024-01-01''" "date mar = ''2024-03-01''" "date feb = ''2024-02-01''"
  shows "get_first_incident e = Some jan \<and> get_last_incident e = Some mar"
proof -
  from m have "set_mset (mset (incidents e)) = set_mset {#jan, mar, feb#}" by simp
  then have s: "set (incidents e) = {jan, mar, feb}" by simp
  have "(''2024-01-01''::string) < ''2024-02-01''" "(''2024-02-01''::string) < ''2024-03-01''"
    by simp_all
  with d have "date jan < date feb" "date feb < date mar" by simp_all
  with s show ?thesis by (rule first_last_three_gen)
qed

text \<open>
  C5. On an entity with a non-empty incident list, \<open>get_first_incident\<close> returns an incident
  of the list whose date is the least and \<open>get_last_incident\<close> one whose date is the
  greatest in the lexicographic order of strings; on an empty list both return \<open>None\<close>.
  When the list holds, in any order, three incidents dated 2024-01-01, 2024-03-01 and
  2024-02-01, they return the January and the March incident.
\<close>

theorem first_and_last_incident:
  "(incidents e \<noteq> [] \<longrightarrow>
      (\<exists>i j. get_first_incident e = Some i \<and> get_last_incident e = Some j \<and>
         i \<in> set (incidents e) \<and> j \<in> set (incidents e) \<and>
         (\<forall>k\<in>set (incidents e). date i \<le> date k \<and> date k \<le> date j)))
   \<and> (incidents e = [] \<longrightarrow> get_first_incident e = None \<and> get_last_incident e = None)
   \<and> (mset (incidents e) = {#jan, mar, feb#} \<and> date jan = ''2024-01-01'' \<and>
        date mar = ''2024-03-01'' \<and> date feb = ''2024-02-01''
      \<longrightarrow> get_first_incident e = Some jan \<and> get_last_incident e = Some mar)"
proof (intro conjI impI)
  assume "incidents e \<noteq> []"
  then show "\<exists>i j. get_first_incident e = Some i \<and> get_last_incident e = Some j \<and>
         i \<in> set (incidents e) \<and> j \<in> set (incidents e) \<and>
         (\<forall>k\<in>set (incidents e). date i \<le> date k \<and> date k \<le> date j)"
    by (rule first_last_nonempty)
next
  assume "incidents e = []"
  then show "get_first_incident e = None" by (simp add: first_last_empty)
next
  assume "incidents e = []"
  then show "get_last_incident e = None" by (simp add: first_last_empty)
next
  assume a: "mset (incidents e) = {#jan, mar, feb#} \<and> date jan = ''2024-01-01'' \<and>
        date mar = ''2024-03-01'' \<and> date feb = ''2024-02-01''"
  then show "get_first_incident e = Some jan" using first_last_three[of e jan mar feb] by blast
next
  assume a: "mset (incidents e) = {#jan, mar, feb#} \<and> date jan = ''2024-01-01'' \<and>
        date mar = ''2024-03-01'' \<and> date feb = ''2024-02-01''"
  then show "get_last_incident e = Some mar" using first_last_three[of e jan mar feb] by blast
qed

theorem first_and_last_incident_witness:
  "get_first_incident \<lparr>entity_id = ''x'', incidents = [jan_incident, mar_incident, feb_incident]\<rparr>
     = Some jan_incident
   \<and> get_last_incident \<lparr>entity_id = ''x'', incidents = [jan_incident, mar_incident, feb_incident]\<rparr>
     = Some mar_incident
   \<and> get_first_incident \<lparr>entity_id = ''x'', incidents = [feb_incident, mar_incident, jan_incident]\<rparr>
     = Some jan_incident
   \<and> get_last_incident \<lparr>entity_id = ''x'', incidents = [feb_incident, mar_incident, jan_incident]\<rparr>
     = Some mar_incident
   \<and> get_first_incident \<lparr>entity_id = ''x'', incidents = []\<rparr> = None
   \<and> get_last_incident \<lparr>entity_id = ''x'', incidents = []\<rparr> = None"
proof -
  have d: "date jan_incident = ''2024-01-01''" "date mar_incident = ''2024-03-01''"
    "date feb_incident = ''2024-02-01''"
    by (simp_all add: jan_incident_def mar_incident_def feb_incident_def)
  have m1: "mset (incidents \<lparr>entity_id = ''x'',
        incidents = [jan_incident, mar_incident, feb_incident]\<rparr>)
      = {#jan_incident, mar_incident, feb_incident#}" by simp
  have m2: "mset (incidents \<lparr>entity_id = ''x'',
        incidents = [feb_incident, mar_incident, jan_incident]\<rparr>)
      = {#jan_incident, mar_incident, feb_incident#}" by simp
  have m3: "incidents \<lparr>entity_id = ''x'', incidents = []\<rparr> = []" by simp
  from first_and_last_incident[of "\<lparr>entity_id = ''x'',
        incidents = [jan_incident, mar_incident, feb_incident]\<rparr>"
        jan_incident mar_incident feb_incident] m1 d
  have 1: "get_first_incident \<lparr>entity_id = ''x'',
        incidents = [jan_incident, mar_incident, feb_incident]\<rparr> = Some jan_incident
     \<and> get_last_incident \<lparr>entity_id = ''x'',
        incidents = [jan_incident, mar_incident, feb_incident]\<rparr> = Some mar_incident"
    by blast
  from first_and_last_incident[of "\<lparr>entity_id = ''x'',
        incidents = [feb_incident, mar_incident, jan_incident]\<rparr>"
        jan_incident mar_incident feb_incident] m2 d
  have 2: "get_first_incident \<lparr>entity_id = ''x'',
        incidents = [feb_incident, mar_incident, jan_incident]\<rparr> = Some jan_incident
     \<and> get_last_incident \<lparr>entity_id = ''x'',
        incidents = [feb_incident, mar_incident, jan_incident]\<rparr> = Some mar_incident"
    by blast
  from first_and_last_incident[of "\<lparr>entity_id = ''x'', incidents = []\<rparr>"] m3
  have 3: "get_first_incident \<lparr>entity_id = ''x'', incidents = []\<rparr> = None
     \<and> get_last_incident \<lparr>entity_id = ''x'', incidents = []\<rparr> = None"
    by blast
  from 1 2 3 show ?thesis by blast
qed

subsection \<open>SnapshotGenerator.create_system_snapshot\<close>

lemma entity_step_first_seen:
  "first_seen_of (entity_step d y m) x =
     (if x = y then Some (case first_seen_of m x of None \<Rightarrow> d | Some v \<Rightarrow> v)
      else first_seen_of m x)"
  by (auto simp: first_seen_of_def entity_step_def Let_def split: option.splits)

lemma participants_fold_first_seen:
  "first_seen_of (fold (entity_step d) ps m) x =
     (if x \<in> set ps then Some (case first_seen_of m x of None \<Rightarrow> d | Some v \<Rightarrow> v)
      else first_seen_of m x)"
proof (induction ps arbitrary: m)
  case Nil
  show ?case by simp
next
  case (Cons y ps)
  have "first_seen_of (fold (entity_step d) (y # ps) m) x =
        first_seen_of (fold (entity_step d) ps (entity_step d y m)) x" by simp
  also have "\<dots> = (if x \<in> set ps
       then Some (case first_seen_of (entity_step d y m) x of None \<Rightarrow> d | Some v \<Rightarrow> v)
       else first_seen_of (entity_step d y m) x)" by (rule Cons.IH)
  also have "\<dots> = (if x \<in> set (y # ps)
       then Some (case first_seen_of m x of None \<Rightarrow> d | Some v \<Rightarrow> v)
       else first_seen_of m x)"
    by (simp add: entity_step_first_seen split: option.splits)
  finally show ?case .
qed

lemma incident_step_first_seen:
  "first_seen_of (incident_step i m) x =
     (if x \<in> set (participants i)
      then Some (case first_seen_of m x of None \<Rightarrow> date i | Some v \<Rightarrow> v)
      else first_seen_of m x)"
  by (simp add: incident_step_def participants_fold_first_seen)

lemma incidents_fold_first_seen:
  "first_seen_of (fold incident_step incs m) x =
     (case first_seen_of m x of
        Some v \<Rightarrow> Some v
      | None \<Rightarrow> map_option date (find (\<lambda>i. x \<in> set (participants i)) incs))"
proof (induction incs arbitrary: m)
  case Nil
  show ?case by (simp split: option.splits)
next
  case (Cons i incs)
  have "first_seen_of (fold incident_step (i # incs) m) x =
        first_seen_of (fold incident_step incs (incident_step i m)) x" by simp
  also have "\<dots> = (case first_seen_of (incident_step i m) x of
        Some v \<Rightarrow> Some v
      | None \<Rightarrow> map_option date (find (\<lambda>i. x \<in> set (participants i)) incs))"
    by (rule Cons.IH)
  also have "\<dots> = (case first_seen_of m x of
        Some v \<Rightarrow> Some v
      | None \<Rightarrow> map_option date (find (\<lambda>i. x \<in> set (participants i)) (i # incs)))"
    by (simp add: incident_step_first_seen split: option.splits)
  finally show ?case .
qed

lemma system_snapshot_first_seen:
  "first_seen_of (ss_entities (fst (create_system_snapshot s now g))) x =
     map_option date (find (\<lambda>i. x \<in> set (participants i)) (get_by_system (incident_log g) s))"
proof -
  have "first_seen_of Map.empty x = None" by (simp add: first_seen_of_def)
  then show ?thesis
    by (simp add: create_system_snapshot_def Let_def incidents_fold_first_seen)
qed

text \<open>The incidents that \<open>get_by_system\<close> hands to the fold are those of the ledger whose
  \<open>system\<close> is the one asked for, in ledger order.\<close>

lemma find_get_by_system:
  "find P (get_by_system log s) = find (\<lambda>i. system i = s \<and> P i) log"
  by (induction log) (simp_all add: get_by_system_def)

lemma system_snapshot_entity:
  assumes "find (\<lambda>i. system i = s \<and> x \<in> set (participants i)) (incident_log g) = Some i"
  shows "\<exists>r. ss_entities (fst (create_system_snapshot s now g)) x = Some r \<and>
             es_first_seen r = date i"
proof -
  from assms system_snapshot_first_seen[of s now g x]
  have "first_seen_of (ss_entities (fst (create_system_snapshot s now g))) x = Some (date i)"
    by (simp add: find_get_by_system)
  then show ?thesis by (auto simp: first_seen_of_def)
qed

lemma system_snapshot_absent:
  assumes "find (\<lambda>i. system i = s \<and> x \<in> set (participants i)) (incident_log g) = None"
  shows "ss_entities (fst (create_system_snapshot s now g)) x = None"
proof -
  from assms system_snapshot_first_seen[of s now g x]
  have "first_seen_of (ss_entities (fst (create_system_snapshot s now g))) x = None"
    by (simp add: find_get_by_system)
  then show ?thesis by (simp add: first_seen_of_def)
qed

lemma system_snapshot_count:
  "ss_system (fst (create_system_snapshot s now g)) = s \<and>
   ss_incident_count (fst (create_system_snapshot s now g))
     = length (filter (\<lambda>i. system i = s) (incident_log g))"
  by (simp add: create_system_snapshot_def Let_def get_by_system_def)

lemma system_snapshot_two:
  assumes "system i1 = ''A''" "participants i1 = [''x'']" "date i1 = ''2024-01-02''"
    "system i2 = ''A''" "participants i2 = [''x'']" "date i2 = ''2024-01-01''"
  shows "\<exists>r. ss_entities (fst (create_system_snapshot ''A'' now
            (SnapshotGenerator_init
               (IncidentLog_append (IncidentLog_append IncidentLog_init i1) i2)))) ''x'' = Some r
          \<and> es_first_seen r = ''2024-01-02''"
proof -
  let ?g = "SnapshotGenerator_init (IncidentLog_append (IncidentLog_append IncidentLog_init i1) i2)"
  have "incident_log ?g = [i1, i2]"
    by (simp add: SnapshotGenerator_init_def IncidentLog_append_def IncidentLog_init_def)
  then have "find (\<lambda>i. system i = ''A'' \<and> ''x'' \<in> set (participants i)) (incident_log ?g)
      = Some i1"
    using assms(1,2) by simp
  from system_snapshot_entity[OF this, of now] assms(3) show ?thesis by simp
qed

lemma system_snapshot_three:
  assumes "system i0 \<noteq> ''A''"
    "system i1 = ''A''" "participants i1 = [''x'']" "date i1 = ''2024-01-02''"
    "system i2 = ''A''" "participants i2 = [''x'']" "date i2 = ''2024-01-01''"
  shows "\<exists>r. ss_entities (fst (create_system_snapshot ''A'' now
            (SnapshotGenerator_init
               (IncidentLog_append
                  (IncidentLog_append (IncidentLog_append IncidentLog_init i0) i1) i2)))) ''x''
            = Some r
          \<and> es_first_seen r = ''2024-01-02''"
proof -
  let ?g = "SnapshotGenerator_init (IncidentLog_append
      (IncidentLog_append (IncidentLog_append IncidentLog_init i0) i1) i2)"
  have "incident_log ?g = [i0, i1, i2]"
    by (simp add: SnapshotGenerator_init_def IncidentLog_append_def IncidentLog_init_def)
  then have "find (\<lambda>i. system i = ''A'' \<and> ''x'' \<in> set (participants i)) (incident_log ?g)
      = Some i1"
    using assms(1,2,3) by simp
  from system_snapshot_entity[OF this, of now] assms(4) show ?thesis by simp
qed

text \<open>
  C2. \<open>create_system_snapshot(s)\<close> goes through the incidents of the ledger whose system is
  \<open>s\<close>, in ledger order, and counts them. The \<open>first_seen\<close> it records for an entity is the
  date of the first incident of the ledger that has system \<open>s\<close> and lists the entity
  (an entity that no incident of system \<open>s\<close> lists has no entry), whether or not a later
  one has an earlier date; incidents of other systems play no part. For two incidents of
  system \<open>A\<close> with participants \<open>[x]\<close>, dated 2024-01-02 and 2024-01-01 and appended in that
  order, the snapshot has \<open>first_seen = 2024-01-02\<close> for \<open>x\<close>, also when an incident of
  another system was appended before them.
\<close>

theorem system_snapshot_first_seen_is_first_encountered:
  "(find (\<lambda>i. system i = s \<and> x \<in> set (participants i)) (incident_log g) = Some i
      \<longrightarrow> (\<exists>r. ss_entities (fst (create_system_snapshot s now g)) x = Some r \<and>
                es_first_seen r = date i))
   \<and> (find (\<lambda>i. system i = s \<and> x \<in> set (participants i)) (incident_log g) = None
      \<longrightarrow> ss_entities (fst (create_system_snapshot s now g)) x = None)
   \<and> ss_system (fst (create_system_snapshot s now g)) = s
   \<and> ss_incident_count (fst (create_system_snapshot s now g))
       = length (filter (\<lambda>i. system i = s) (incident_log g))
   \<and> (system i1 = ''A'' \<and> participants i1 = [''x''] \<and> date i1 = ''2024-01-02'' \<and>
       system i2 = ''A'' \<and> participants i2 = [''x''] \<and> date i2 = ''2024-01-01''
      \<longrightarrow> (\<exists>r. ss_entities (fst (create_system_snapshot ''A'' now
                  (SnapshotGenerator_init
                     (IncidentLog_append (IncidentLog_append IncidentLog_init i1) i2)))) ''x''
                  = Some r
                \<and> es_first_seen r = ''2024-01-02''))
   \<and> (system i0 \<noteq> ''A'' \<and>
       system i1 = ''A'' \<and> participants i1 = [''x''] \<and> date i1 = ''2024-01-02'' \<and>
       system i2 = ''A'' \<and> participants i2 = [''x''] \<and> date i2 = ''2024-01-01''
      \<longrightarrow> (\<exists>r. ss_entities (fst (create_system_snapshot ''A'' now
                  (SnapshotGenerator_init
                     (IncidentLog_append
                        (IncidentLog_append (IncidentLog_append IncidentLog_init i0) i1) i2))))
                  ''x'' = Some r
                \<and> es_first_seen r = ''2024-01-02''))"
  using system_snapshot_entity[of s x g i now] system_snapshot_absent[of s x g now]
    system_snapshot_count[of s now g]
    system_snapshot_two[of i1 i2 now] system_snapshot_three[of i0 i1 i2 now]
  by blast

theorem system_snapshot_first_seen_is_first_encountered_witness:
  "map_option es_first_seen
     (ss_entities (fst (create_system_snapshot ''A'' ''2024-06-01T00:00:00''
        (SnapshotGenerator_init [elsewhere_incident, later_incident, earlier_incident]))) ''x'')
     = Some ''2024-01-02''
   \<and> map_option es_first_seen
     (ss_entities (fst (create_system_snapshot ''B'' ''2024-06-01T00:00:00''
        (SnapshotGenerator_init [elsewhere_incident, later_incident, earlier_incident]))) ''x'')
     = Some ''2023-12-31''
   \<and> ss_entities (fst (create_system_snapshot ''A'' ''2024-06-01T00:00:00''
        (SnapshotGenerator_init [elsewhere_incident, later_incident, earlier_incident]))) ''y''
     = None
   \<and> ss_incident_count (fst (create_system_snapshot ''A'' ''2024-06-01T00:00:00''
        (SnapshotGenerator_init [elsewhere_incident, later_incident, earlier_incident]))) = 2"
proof -
  let ?g = "SnapshotGenerator_init [elsewhere_incident, later_incident, earlier_incident]"
  let ?now = "''2024-06-01T00:00:00''"
  have l: "incident_log ?g = [elsewhere_incident, later_incident, earlier_incident]"
    by (simp add: SnapshotGenerator_init_def)
  have a: "find (\<lambda>i. system i = ''A'' \<and> ''x'' \<in> set (participants i)) (incident_log ?g)
      = Some later_incident"
    unfolding l
    by (simp add: elsewhere_incident_def later_incident_def earlier_incident_def
        meeting_incident_def)
  have b: "find (\<lambda>i. system i = ''B'' \<and> ''x'' \<in> set (participants i)) (incident_log ?g)
      = Some elsewhere_incident"
    unfolding l
    by (simp add: elsewhere_incident_def later_incident_def earlier_incident_def
        meeting_incident_def)
  have n: "find (\<lambda>i. system i = ''A'' \<and> ''y'' \<in> set (participants i)) (incident_log ?g)
      = None"
    unfolding l
    by (simp add: elsewhere_incident_def later_incident_def earlier_incident_def
        meeting_incident_def)
  have c: "length (filter (\<lambda>i. system i = ''A'') (incident_log ?g)) = 2"
    unfolding l
    by (simp add: elsewhere_incident_def later_incident_def earlier_incident_def
        meeting_incident_def)
  have d: "date later_incident = ''2024-01-02''" "date elsewhere_incident = ''2023-12-31''"
    by (simp_all add: later_incident_def elsewhere_incident_def)
  note ta = system_snapshot_first_seen_is_first_encountered[of "''A''" "''x''" ?g
      later_incident ?now]
  note tb = system_snapshot_first_seen_is_first_encountered[of "''B''" "''x''" ?g
      elsewhere_incident ?now]
  note tn = system_snapshot_first_seen_is_first_encountered[of "''A''" "''y''" ?g _ ?now]
  from ta a have "\<exists>r. ss_entities (fst (create_system_snapshot ''A'' ?now ?g)) ''x'' = Some r \<and>
      es_first_seen r = date later_incident" by blast
  with d(1) have 1: "map_option es_first_seen
      (ss_entities (fst (create_system_snapshot ''A'' ?now ?g)) ''x'') = Some ''2024-01-02''"
    by auto
  from tb b have "\<exists>r. ss_entities (fst (create_system_snapshot ''B'' ?now ?g)) ''x'' = Some r \<and>
      es_first_seen r = date elsewhere_incident" by blast
  with d(2) have 2: "map_option es_first_seen
      (ss_entities (fst (create_system_snapshot ''B'' ?now ?g)) ''x'') = Some ''2023-12-31''"
    by auto
  from tn n have 3: "ss_entities (fst (create_system_snapshot ''A'' ?now ?g)) ''y'' = None"
    by blast
  from ta have "ss_incident_count (fst (create_system_snapshot ''A'' ?now ?g))
      = length (filter (\<lambda>i. system i = ''A'') (incident_log ?g))" by blast
  with c have 4: "ss_incident_count (fst (create_system_snapshot ''A'' ?now ?g)) = 2"
    by (simp only:)
  from 1 2 3 4 show ?thesis by blast
qed

subsection \<open>Incident.to_dict and Incident.from_dict\<close>

lemma as_str_list_aux_PStr: "as_str_list_aux (map PStr ss) = Inr ss"
  by (induction ss) (simp_all add: bind_err_def)

lemma IncidentType_of_value_value: "IncidentType_of_value (IncidentType_value ty) = Inr ty"
  by (cases ty) (simp_all add: IncidentType_of_value_def IncidentType_members_def)

lemma Incident_new_fields:
  assumes "Incident_new iid d sys ty ps fs ctx summ outc md = Inr i"
  shows "i = \<lparr>incident_id = iid, date = d, system = sys, incident_type = ty,
               participants = ps, facts = fs, incident_context = ctx, summary = summ,
               outcome = outc, metadata = md\<rparr>"
  using assms by (auto simp: Incident_new_def Let_def split: sum.splits)

lemma from_dict_to_dict_fields:
  "Incident_from_dict (Incident_to_dict
       \<lparr>incident_id = iid, date = d, system = sys, incident_type = ty,
        participants = ps, facts = fs, incident_context = ctx, summary = summ,
        outcome = outc, metadata = md\<rparr>)
     = Incident_new iid d sys ty ps fs ctx summ outc md"
  by (simp add: Incident_from_dict_def Incident_to_dict_def dict_item_def dict_get_def
      bind_err_def IncidentType_of_value_value as_str_list_aux_PStr)

text \<open>
  C8. For an incident \<open>i\<close> that its constructor has returned,
  \<open>Incident.from_dict(i.to_dict())\<close> succeeds, and the incident it returns has the same
  \<open>incident_id\<close>, \<open>date\<close>, \<open>system\<close>, \<open>incident_type\<close>, \<open>participants\<close>, \<open>facts\<close>,
  \<open>context\<close>, \<open>summary\<close>, \<open>outcome\<close> and \<open>metadata\<close> as \<open>i\<close>.
\<close>

theorem from_dict_inverts_to_dict:
  assumes "Incident_new iid d sys ty ps fs ctx summ outc md = Inr i"
  shows "\<exists>j. Incident_from_dict (Incident_to_dict i) = Inr j \<and>
           incident_id j = incident_id i \<and> date j = date i \<and> system j = system i \<and>
           incident_type j = incident_type i \<and> participants j = participants i \<and>
           facts j = facts i \<and> incident_context j = incident_context i \<and>
           summary j = summary i \<and> outcome j = outcome i \<and> metadata j = metadata i"
proof -
  from Incident_new_fields[OF assms] assms
  have "Incident_from_dict (Incident_to_dict i) = Inr i"
    by (simp add: from_dict_to_dict_fields)
  then show ?thesis by simp
qed

theorem from_dict_inverts_to_dict_witness:
  "Incident_from_dict (Incident_to_dict meeting_incident) = Inr meeting_incident"
proof -
  have "Incident_new ''i1'' ''2024-01-01'' ''A'' OBSERVATION [''x'']
      [''The meeting occurred at 3pm''] [] [] [] [] = Inr meeting_incident"
    by code_simp
  from from_dict_inverts_to_dict[OF this] obtain j where
    j: "Incident_from_dict (Incident_to_dict meeting_incident) = Inr j"
    "incident_id j = incident_id meeting_incident" "date j = date meeting_incident"
    "system j = system meeting_incident" "incident_type j = incident_type meeting_incident"
    "participants j = participants meeting_incident" "facts j = facts meeting_incident"
    "incident_context j = incident_context meeting_incident"
    "summary j = summary meeting_incident" "outcome j = outcome meeting_incident"
    "metadata j = metadata meeting_incident" by blast
  then have "j = meeting_incident" by (cases j) (simp add: meeting_incident_def)
  with j(1) show ?thesis by simp
qed

subsection \<open>SnapshotGenerator and its cache\<close>

lemma create_keeps_generator:
  "snd (create_identity_snapshot e now g) = g"
  "snd (create_timeline_snapshot e now g) = g"
  "snd (create_system_snapshot s now g) = g"
  "snd (create_relationship_snapshot a b now g) = g"
  "snd (create_temporal_snapshot a b now g) = g"
  by (simp_all add: create_identity_snapshot_def create_timeline_snapshot_def
      create_system_snapshot_def create_relationship_snapshot_def
      create_temporal_snapshot_def Let_def)

lemma delete_snapshot_fields:
  "incident_log (delete_snapshot eid g) = incident_log g"
  "snapshots (delete_snapshot eid g) = (snapshots g)(eid := None)"
  by (auto simp: delete_snapshot_def)

text \<open>
  C7. \<open>delete_snapshot\<close> changes nothing but the generator's cache, where it removes the
  entry of the given key if there is one: after \<open>create_identity_snapshot\<close> (of any entity)
  followed by \<open>delete_snapshot\<close>, from any state, the ledger and so \<open>get_count()\<close> are
  what they were, and so is every \<open>EntityIdentity\<close>.
\<close>

theorem delete_snapshot_only_touches_cache:
  "incident_log (generator (exec now2 (Op_delete_snapshot eid)
       (exec now1 (Op_create_identity_snapshot k) w))) = incident_log (generator w)
   \<and> get_count (incident_log (generator (exec now2 (Op_delete_snapshot eid)
       (exec now1 (Op_create_identity_snapshot k) w)))) = get_count (incident_log (generator w))
   \<and> entity_objs (exec now2 (Op_delete_snapshot eid)
       (exec now1 (Op_create_identity_snapshot k) w)) = entity_objs w
   \<and> snapshots (generator (exec now2 (Op_delete_snapshot eid)
       (exec now1 (Op_create_identity_snapshot k) w))) = (snapshots (generator w))(eid := None)
   \<and> incident_log (delete_snapshot eid g) = incident_log g
   \<and> snapshots (delete_snapshot eid g) = (snapshots g)(eid := None)
   \<and> get_count (incident_log (delete_snapshot eid (snd (create_identity_snapshot e now1 g))))
       = get_count (incident_log g)
   \<and> incident_log (delete_snapshot eid (snd (create_identity_snapshot e now1 g)))
       = incident_log g"
  by (simp add: create_keeps_generator delete_snapshot_fields)

theorem delete_snapshot_only_touches_cache_witness:
  "get_count (incident_log (generator (exec ''t2'' (Op_delete_snapshot ''x'')
       (exec ''t1'' (Op_create_identity_snapshot 0) meeting_world)))) = 1
   \<and> incident_log (generator (exec ''t2'' (Op_delete_snapshot ''x'')
       (exec ''t1'' (Op_create_identity_snapshot 0) meeting_world))) = [meeting_incident]
   \<and> entity_objs (exec ''t2'' (Op_delete_snapshot ''x'')
       (exec ''t1'' (Op_create_identity_snapshot 0) meeting_world))
       = [\<lparr>entity_id = ''x'', incidents = [meeting_incident]\<rparr>]"
proof -
  let ?w = "exec ''t2'' (Op_delete_snapshot ''x'')
       (exec ''t1'' (Op_create_identity_snapshot 0) meeting_world)"
  note t = delete_snapshot_only_touches_cache[of "''t2''" "''x''" "''t1''" 0 meeting_world
      "generator meeting_world" "\<lparr>entity_id = ''x'', incidents = [meeting_incident]\<rparr>"]
  have l: "incident_log (generator meeting_world) = [meeting_incident]"
    by (simp add: meeting_world_def SnapshotGenerator_init_def)
  have c: "get_count (incident_log (generator meeting_world)) = 1"
    by (simp add: l get_count_def)
  have e: "entity_objs meeting_world = [\<lparr>entity_id = ''x'', incidents = [meeting_incident]\<rparr>]"
    by (simp add: meeting_world_def)
  from t have "get_count (incident_log (generator ?w))
      = get_count (incident_log (generator meeting_world))" by blast
  with c have 1: "get_count (incident_log (generator ?w)) = 1" by (simp only:)
  from t have "incident_log (generator ?w) = incident_log (generator meeting_world)" by blast
  with l have 2: "incident_log (generator ?w) = [meeting_incident]" by (simp only:)
  from t have "entity_objs ?w = entity_objs meeting_world" by blast
  with e have 3: "entity_objs ?w = [\<lparr>entity_id = ''x'', incidents = [meeting_incident]\<rparr>]"
    by (simp only:)
  from 1 2 3 show ?thesis by blast
qed

lemma exec_keeps_empty_cache:
  "snapshots (generator w) = Map.empty \<Longrightarrow> snapshots (generator (exec now c w)) = Map.empty"
  by (cases c) (auto simp: create_keeps_generator delete_snapshot_def
      regenerate_all_snapshots_def split: sum.splits)

lemma run_keeps_empty_cache:
  "snapshots (generator w) = Map.empty \<Longrightarrow> snapshots (generator (run calls w)) = Map.empty"
proof (induction calls arbitrary: w)
  case Nil
  then show ?case by (simp add: run_def)
next
  case (Cons c calls)
  from Cons.prems have "snapshots (generator (exec (fst c) (snd c) w)) = Map.empty"
    by (rule exec_keeps_empty_cache)
  from Cons.IH[OF this] show ?case by (simp add: run_def)
qed

lemma empty_cache_delete:
  "snapshots g = Map.empty \<Longrightarrow> delete_snapshot eid g = g"
  by (simp add: delete_snapshot_def)

lemma empty_cache_regenerate:
  "snapshots g = Map.empty \<Longrightarrow> regenerate_all_snapshots g = g"
  by (cases g) (simp add: regenerate_all_snapshots_def)

text \<open>
  C9. No operation of \<open>SnapshotGenerator\<close> puts anything into the cache \<open>snapshots\<close>: each
  of the five \<open>create_*\<close> methods leaves it as it is, so after any sequence of calls on a
  freshly constructed generator the cache is empty, and then \<open>delete_snapshot\<close> and
  \<open>regenerate_all_snapshots\<close> change nothing.
\<close>

theorem snapshot_cache_stays_empty:
  "snapshots (generator (run calls (fresh_world log ents))) = Map.empty
   \<and> exec now (Op_delete_snapshot eid) (run calls (fresh_world log ents))
       = run calls (fresh_world log ents)
   \<and> exec now Op_regenerate_all_snapshots (run calls (fresh_world log ents))
       = run calls (fresh_world log ents)
   \<and> snapshots (snd (create_identity_snapshot e now g)) = snapshots g
   \<and> snapshots (snd (create_timeline_snapshot e now g)) = snapshots g
   \<and> snapshots (snd (create_system_snapshot s now g)) = snapshots g
   \<and> snapshots (snd (create_relationship_snapshot a b now g)) = snapshots g
   \<and> snapshots (snd (create_temporal_snapshot a b now g)) = snapshots g"
proof -
  have "snapshots (generator (fresh_world log ents)) = Map.empty"
    by (simp add: fresh_world_def SnapshotGenerator_init_def)
  then have e: "snapshots (generator (run calls (fresh_world log ents))) = Map.empty"
    by (rule run_keeps_empty_cache)
  from e have d: "delete_snapshot eid (generator (run calls (fresh_world log ents)))
      = generator (run calls (fresh_world log ents))" by (rule empty_cache_delete)
  from e have r: "regenerate_all_snapshots (generator (run calls (fresh_world log ents)))
      = generator (run calls (fresh_world log ents))" by (rule empty_cache_regenerate)
  from e d r show ?thesis by (simp add: create_keeps_generator)
qed


theorem snapshot_cache_stays_empty_witness:
  "snapshots (generator (run [(''t1'', Op_create_identity_snapshot 0),
        (''t2'', Op_create_system_snapshot ''A''), (''t3'', Op_delete_snapshot ''x''),
        (''t4'', Op_regenerate_all_snapshots), (''t5'', Op_create_identity_snapshot 0)]
      (fresh_world [meeting_incident] [\<lparr>entity_id = ''x'', incidents = [meeting_incident]\<rparr>])))
     ''x'' = None"
  using snapshot_cache_stays_empty[of "[(''t1'', Op_create_identity_snapshot 0),
        (''t2'', Op_create_system_snapshot ''A''), (''t3'', Op_delete_snapshot ''x''),
        (''t4'', Op_regenerate_all_snapshots), (''t5'', Op_create_identity_snapshot 0)]"
      "[meeting_incident]" "[\<lparr>entity_id = ''x'', incidents = [meeting_incident]\<rparr>]"]
  by simp

subsection \<open>MeaningOverlay.add_meaning\<close>

lemma MeaningSource_members_all: "src \<in> set MeaningSource_members"
  by (cases src) (simp_all add: MeaningSource_members_def)

lemma layers_keyedD:
  "layers_keyed ov \<Longrightarrow> \<exists>layer. layers ov src = Some layer \<and> ml_source layer = src"
  using MeaningSource_members_all[of src]
  by (auto simp: layers_keyed_def list_all_iff split: option.splits)

lemma layers_keyedI:
  "(\<And>src. \<exists>layer. layers ov src = Some layer \<and> ml_source layer = src) \<Longrightarrow> layers_keyed ov"
  unfolding layers_keyed_def list_all_iff
proof
  fix src
  assume a: "\<And>src. \<exists>layer. layers ov src = Some layer \<and> ml_source layer = src"
  from a[of src] obtain layer where "layers ov src = Some layer" "ml_source layer = src"
    by blast
  then show "case layers ov src of None \<Rightarrow> False | Some layer \<Rightarrow> ml_source layer = src"
    by simp
qed

lemma init_layers: "layers MeaningOverlay_init src = Some (MeaningLayer_new src)"
  by (cases src) (simp_all add: MeaningOverlay_init_def MeaningSource_members_def)

lemma init_keyed: "layers_keyed MeaningOverlay_init"
  by (rule layers_keyedI) (simp add: init_layers MeaningLayer_new_def)

lemma add_entry_same_source:
  "ml_source layer = me_source entry \<Longrightarrow>
     add_entry layer entry = Inr (layer\<lparr>entries := (entries layer)(me_term entry \<mapsto> entry)\<rparr>)"
  by (simp add: add_entry_def)

lemma add_entry_keeps_source:
  "add_entry layer entry = Inr layer' \<Longrightarrow> ml_source layer' = ml_source layer"
  by (auto simp: add_entry_def split: if_splits)

lemma add_meaning_succeeds:
  assumes "layers_keyed ov"
  shows "\<exists>ov' layer. add_meaning ov e = Inr ov' \<and> layers_keyed ov' \<and>
           layers ov' (me_source e) = Some layer \<and> ml_source layer = me_source e \<and>
           get_entry layer (me_term e) = Some e"
proof -
  from layers_keyedD[OF assms, of "me_source e"] obtain layer where
    l: "layers ov (me_source e) = Some layer" "ml_source layer = me_source e" by blast
  let ?layer' = "layer\<lparr>entries := (entries layer)(me_term e \<mapsto> e)\<rparr>"
  let ?ov' = "ov\<lparr>layers := (layers ov)(me_source e \<mapsto> ?layer')\<rparr>"
  from l have r: "add_meaning ov e = Inr ?ov'"
    by (simp add: add_meaning_def add_entry_same_source bind_err_def)
  have "layers_keyed ?ov'"
  proof (rule layers_keyedI)
    fix src
    from layers_keyedD[OF assms, of src] l
    show "\<exists>la. layers ?ov' src = Some la \<and> ml_source la = src" by auto
  qed
  moreover have "layers ?ov' (me_source e) = Some ?layer'" by simp
  moreover from l have "ml_source ?layer' = me_source e" by simp
  moreover have "get_entry ?layer' (me_term e) = Some e" by (simp add: get_entry_def)
  ultimately show ?thesis using r by blast
qed

lemma overlay_exec_keyed:
  assumes "layers_keyed ov"
  shows "layers_keyed (overlay_exec c ov)"
proof (cases c)
  case (Ov_add_meaning e)
  from add_meaning_succeeds[OF assms, of e] Ov_add_meaning show ?thesis by auto
next
  case (Ov_layer_add_entry src e)
  show ?thesis
  proof (cases "bind_err (get_layer ov src) (\<lambda>layer. add_entry layer e)")
    case (Inl err)
    with Ov_layer_add_entry assms show ?thesis by simp
  next
    case (Inr layer')
    from layers_keyedD[OF assms, of src] obtain layer where
      l: "layers ov src = Some layer" "ml_source layer = src" by blast
    with Inr have "add_entry layer e = Inr layer'"
      by (simp add: get_layer_def bind_err_def)
    from add_entry_keeps_source[OF this] l have s: "ml_source layer' = src" by simp
    have "layers_keyed (ov\<lparr>layers := (layers ov)(src \<mapsto> layer')\<rparr>)"
    proof (rule layers_keyedI)
      fix src'
      from layers_keyedD[OF assms, of src'] s
      show "\<exists>la. layers (ov\<lparr>layers := (layers ov)(src \<mapsto> layer')\<rparr>) src' = Some la \<and>
                 ml_source la = src'" by auto
    qed
    with Inr Ov_layer_add_entry show ?thesis by simp
  qed
qed

lemma overlay_run_keyed: "layers_keyed ov \<Longrightarrow> layers_keyed (overlay_run calls ov)"
proof (induction calls arbitrary: ov)
  case Nil
  then show ?case by (simp add: overlay_run_def)
next
  case (Cons c calls)
  from Cons.prems have "layers_keyed (overlay_exec c ov)" by (rule overlay_exec_keyed)
  from Cons.IH[OF this] show ?case by (simp add: overlay_run_def)
qed

text \<open>
  C10. \<open>MeaningOverlay()\<close> holds one layer per \<open>MeaningSource\<close>, each with its key as
  source, and the calls that change an overlay keep it so. Hence on every overlay reached
  from the constructor, \<open>add_meaning(e)\<close> succeeds for every entry \<open>e\<close> (the source check
  of \<open>add_entry\<close> passes) and stores \<open>e\<close> under its term in the layer of \<open>e.source\<close>.
\<close>

theorem add_meaning_never_mismatches:
  "layers MeaningOverlay_init src = Some (MeaningLayer_new src)
   \<and> ml_source (MeaningLayer_new src) = src
   \<and> (\<exists>ov' layer. add_meaning (overlay_run calls MeaningOverlay_init) e = Inr ov' \<and>
         layers ov' (me_source e) = Some layer \<and> ml_source layer = me_source e \<and>
         get_entry layer (me_term e) = Some e)"
proof -
  have "layers_keyed (overlay_run calls MeaningOverlay_init)"
    using init_keyed by (rule overlay_run_keyed)
  from add_meaning_succeeds[OF this, of e] show ?thesis
    by (auto simp: init_layers MeaningLayer_new_def)
qed

theorem add_meaning_never_mismatches_witness:
  "\<exists>ov' layer. add_meaning (overlay_run [Ov_add_meaning water_entry,
          Ov_layer_add_entry CULTURAL_USAGE water_entry] MeaningOverlay_init)
        history_entry = Inr ov' \<and>
      layers ov' HISTORICAL_CONTEXT = Some layer \<and>
      get_entry layer ''water'' = Some history_entry"
proof -
  have s: "me_source history_entry = HISTORICAL_CONTEXT" and t: "me_term history_entry = ''water''"
    by (simp_all add: history_entry_def water_entry_def)
  from add_meaning_never_mismatches[of ETYMOLOGY "[Ov_add_meaning water_entry,
          Ov_layer_add_entry CULTURAL_USAGE water_entry]" history_entry]
  show ?thesis unfolding s t by blast
qed

subsection \<open>The forbidden-language checks of MeaningEntry and Incident\<close>

lemma str_contains_iff_sublist: "str_contains p s \<longleftrightarrow> sublist p s"
  by (induction s) (simp_all add: sublist_Cons_right)

lemma str_contains_append: "str_contains (p @ q) s \<Longrightarrow> str_contains p s"
proof -
  assume "str_contains (p @ q) s"
  then obtain pre suf where "s = pre @ (p @ q) @ suf"
    by (auto simp: str_contains_iff_sublist sublist_def)
  then have "s = pre @ p @ (q @ suf)" by simp
  then show ?thesis unfolding str_contains_iff_sublist sublist_def by blast
qed

lemma MeaningEntry_new_accepts_iff:
  "(\<exists>m. MeaningEntry_new t src s ex ctx cs rel = Inr m) \<longleftrightarrow>
     t \<noteq> [] \<and> s \<noteq> [] \<and>
     (\<forall>p\<in>set MeaningEntry_forbidden_phrases. \<not> str_contains p (lower s))"
proof (cases "find (\<lambda>phrase. str_contains phrase (lower s)) MeaningEntry_forbidden_phrases")
  case None
  then have "\<forall>p\<in>set MeaningEntry_forbidden_phrases. \<not> str_contains p (lower s)"
    by (simp add: find_None_iff)
  with None show ?thesis
    by (simp add: MeaningEntry_new_def MeaningEntry_post_init_def Let_def)
next
  case (Some p)
  then have "p \<in> set MeaningEntry_forbidden_phrases \<and> str_contains p (lower s)"
    by (auto simp: find_Some_iff)
  with Some show ?thesis
    by (auto simp: MeaningEntry_new_def MeaningEntry_post_init_def Let_def)
qed

lemma Incident_new_accepts_iff:
  "(\<exists>i. Incident_new iid d sys ty ps fs ctx summ outc md = Inr i) \<longleftrightarrow>
     iid \<noteq> [] \<and> d \<noteq> [] \<and> sys \<noteq> [] \<and> ps \<noteq> [] \<and> fs \<noteq> [] \<and>
     (\<forall>f\<in>set fs. \<forall>p\<in>set Incident_forbidden_phrases. \<not> str_contains p (lower f))"
  using Incident_new_ok[of iid d sys ps fs ty ctx summ outc md]
    Incident_new_bad[of iid d sys ps fs ty ctx summ outc md]
  by (metis Inl_Inr_False)

lemma definition_phrases_split:
  "(\<forall>p\<in>set MeaningEntry_forbidden_phrases. \<not> str_contains p x) \<longleftrightarrow>
     \<not> str_contains ''should'' x \<and> \<not> str_contains ''must'' x \<and> \<not> str_contains ''will'' x \<and>
     \<not> str_contains ''predict'' x \<and> \<not> str_contains ''optimize'' x \<and>
     \<not> str_contains ''ought to'' x"
proof -
  have "str_contains ''must do'' x \<Longrightarrow> str_contains ''must'' x"
    using str_contains_append[of "''must''" "'' do''" x] by simp
  moreover have "str_contains ''will do'' x \<Longrightarrow> str_contains ''will'' x"
    using str_contains_append[of "''will''" "'' do''" x] by simp
  moreover have "str_contains ''should be'' x \<Longrightarrow> str_contains ''should'' x"
    using str_contains_append[of "''should''" "'' be''" x] by simp
  ultimately show ?thesis
    unfolding MeaningEntry_forbidden_phrases_def by auto
qed

lemma fact_phrases_split:
  "(\<forall>p\<in>set Incident_forbidden_phrases. \<not> str_contains p x) \<longleftrightarrow>
     \<not> str_contains ''should'' x \<and> \<not> str_contains ''must'' x \<and> \<not> str_contains ''will'' x \<and>
     \<not> str_contains ''predict'' x \<and> \<not> str_contains ''optimize'' x \<and>
     (\<forall>p\<in>set Incident_only_phrases. \<not> str_contains p x)"
  unfolding Incident_forbidden_phrases_def Incident_only_phrases_def by auto

text \<open>
  C4 (as amended). The check of a \<open>MeaningEntry\<close>'s definition and the check of an
  \<open>Incident\<close>'s fact are both case-insensitive substring searches, over different phrase
  lists. They agree on every non-empty string that contains neither \<open>ought to\<close> (only in
  the list for definitions) nor any of \<open>best\<close>, \<open>worst\<close>, \<open>good\<close>, \<open>bad\<close>, \<open>right\<close>,
  \<open>wrong\<close>, \<open>destiny\<close>, \<open>fate\<close>, \<open>meant to\<close>, \<open>supposed to\<close> (only in the list for facts):
  such a string is accepted as a definition if and only if it is accepted as a fact.
\<close>

theorem definition_check_agrees_outside_differing_phrases:
  assumes "t \<noteq> []" "iid \<noteq> []" "d \<noteq> []" "sys \<noteq> []" "ps \<noteq> []"
    and "s \<noteq> []"
    and "\<not> str_contains ''ought to'' (lower s)"
    and "\<forall>p\<in>set Incident_only_phrases. \<not> str_contains p (lower s)"
  shows "(\<exists>m. MeaningEntry_new t src s ex ctx cs rel = Inr m) \<longleftrightarrow>
         (\<exists>i. Incident_new iid d sys ty ps [s] ictx summ outc md = Inr i)"
  unfolding MeaningEntry_new_accepts_iff Incident_new_accepts_iff
  using assms by (simp add: definition_phrases_split fact_phrases_split)

theorem definition_check_agrees_outside_differing_phrases_witness:
  "(\<exists>i. Incident_new ''i1'' ''2024-01-01'' ''A'' OBSERVATION [''x'']
          [''The meeting occurred at 3pm''] [] [] [] [] = Inr i)
   \<and> \<not> (\<exists>m. MeaningEntry_new ''meeting'' ETYMOLOGY ''This will happen tomorrow''
            [] [] [] [] = Inr m)"
proof -
  have h1: "\<not> str_contains ''ought to'' (lower ''The meeting occurred at 3pm'')"
    "\<forall>p\<in>set Incident_only_phrases. \<not> str_contains p (lower ''The meeting occurred at 3pm'')"
    by (simp_all add: Incident_only_phrases_def lower_def)
  have h2: "\<not> str_contains ''ought to'' (lower ''This will happen tomorrow'')"
    "\<forall>p\<in>set Incident_only_phrases. \<not> str_contains p (lower ''This will happen tomorrow'')"
    by (simp_all add: Incident_only_phrases_def lower_def)
  have ne: "''meeting'' \<noteq> []" "''i1'' \<noteq> []" "''2024-01-01'' \<noteq> []" "''A'' \<noteq> []"
    "[''x''] \<noteq> []" "''The meeting occurred at 3pm'' \<noteq> []" "''This will happen tomorrow'' \<noteq> []"
    by simp_all
  have m: "\<exists>m. MeaningEntry_new ''meeting'' ETYMOLOGY ''The meeting occurred at 3pm''
      [] [] [] [] = Inr m"
    by (simp add: MeaningEntry_new_def MeaningEntry_post_init_def
        MeaningEntry_forbidden_phrases_def lower_def)
  have i: "\<not> (\<exists>i. Incident_new ''i1'' ''2024-01-01'' ''A'' OBSERVATION [''x'']
          [''This will happen tomorrow''] [] [] [] [] = Inr i)"
    by (simp add: Incident_new_def Incident_post_init_def Incident_forbidden_phrases_def
        lower_def)
  from definition_check_agrees_outside_differing_phrases[OF ne(1-5) ne(6) h1,
      of ETYMOLOGY "[]" "[]" "[]" "[]" OBSERVATION "[]" "[]" "[]" "[]"] m
  have 1: "\<exists>i. Incident_new ''i1'' ''2024-01-01'' ''A'' OBSERVATION [''x'']
          [''The meeting occurred at 3pm''] [] [] [] [] = Inr i" by blast
  from definition_check_agrees_outside_differing_phrases[OF ne(1-5) ne(7) h2,
      of ETYMOLOGY "[]" "[]" "[]" "[]" OBSERVATION "[]" "[]" "[]" "[]"] i
  have 2: "\<not> (\<exists>m. MeaningEntry_new ''meeting'' ETYMOLOGY ''This will happen tomorrow''
            [] [] [] [] = Inr m)" by blast
  from 1 2 show ?thesis by blast
qed

text \<open>
  C4 as stated fails: \<open>best\<close> is accepted as a definition and rejected as a fact, and
  \<open>ought to\<close> is rejected as a definition and accepted as a fact.
\<close>

theorem definition_check_differs_counterexample:
  "MeaningEntry_new ''quality'' ETYMOLOGY ''best'' [] [] [] []
     = Inr \<lparr>me_term = ''quality'', me_source = ETYMOLOGY, me_definition = ''best'',
            usage_examples = [], me_context = [], constraints = [], related_terms = []\<rparr>
   \<and> Incident_new ''i1'' ''2024-01-01'' ''A'' OBSERVATION [''x''] [''best''] [] [] [] []
     = Inl (ValueError (fact_message ''best'' ''best''))
   \<and> MeaningEntry_new ''duty'' ETYMOLOGY ''ought to'' [] [] [] []
     = Inl (ValueError ''Definition contains prescriptive language: ought to'')
   \<and> Incident_new ''i1'' ''2024-01-01'' ''A'' OBSERVATION [''x''] [''ought to''] [] [] [] []
     = Inr \<lparr>incident_id = ''i1'', date = ''2024-01-01'', system = ''A'',
            incident_type = OBSERVATION, participants = [''x''], facts = [''ought to''],
            incident_context = [], summary = [], outcome = [], metadata = []\<rparr>"
  by code_simp

subsection \<open>SafetyValidator.validate_fact\<close>

lemma validate_fact_loop_true_iff:
  "validate_fact_loop ps x = (True, []) \<longleftrightarrow> (\<forall>p\<in>set ps. \<not> re_search p x)"
  by (induction ps) auto

lemma validate_fact_loop_first:
  "\<forall>q\<in>set pre. \<not> re_search q x \<Longrightarrow> re_search p x \<Longrightarrow>
     validate_fact_loop (pre @ p # post) x
       = (False, ''Fact contains forbidden pattern: '' @ pattern_source p)"
  by (induction pre) auto

lemma rx_search_from_lit:
  "rx_search_from (WordB # Lit l # r) prev x \<Longrightarrow> str_contains l x"
proof (induction x arbitrary: prev)
  case Nil
  then show ?case by simp
next
  case (Cons c cs)
  then show ?case by auto
qed

lemma re_search_lit: "re_search (WordB # Lit l # r) x \<Longrightarrow> str_contains l x"
  unfolding re_search_def by (rule rx_search_from_lit)

lemma meeting_true: "validate_fact ''The meeting occurred at 3pm'' = (True, [])"
proof -
  let ?x = "lower ''The meeting occurred at 3pm''"
  have n: "\<not> str_contains ''will'' ?x" "\<not> str_contains ''should'' ?x"
    "\<not> str_contains ''must'' ?x" "\<not> str_contains ''predict'' ?x"
    "\<not> str_contains ''optimize'' ?x" "\<not> str_contains ''recommend'' ?x"
    "\<not> str_contains ''destiny'' ?x" "\<not> str_contains ''fate'' ?x"
    "\<not> str_contains ''meant'' ?x" "\<not> str_contains ''supposed'' ?x"
    by (simp_all add: lower_def)
  have "\<forall>p\<in>set FORBIDDEN_PATTERNS. \<not> re_search p ?x"
    unfolding FORBIDDEN_PATTERNS_def using n re_search_lit[of _ _ ?x]
    by (simp only: list.set ball_simps) blast
  then show ?thesis by (simp only: validate_fact_def validate_fact_loop_true_iff)
qed


lemma validate_fact_first:
  assumes "FORBIDDEN_PATTERNS = pre @ p # post" "\<forall>q\<in>set pre. \<not> re_search q (lower s)"
    "re_search p (lower s)"
  shows "validate_fact s = (False, ''Fact contains forbidden pattern: '' @ pattern_source p)"
proof -
  have "validate_fact s = validate_fact_loop (pre @ p # post) (lower s)"
    by (simp only: validate_fact_def assms(1))
  also have "\<dots> = (False, ''Fact contains forbidden pattern: '' @ pattern_source p)"
    using assms(2,3) by (rule validate_fact_loop_first)
  finally show ?thesis .
qed

lemma will_happen_false:
  "validate_fact ''This will happen tomorrow''
     = (False, ''Fact contains forbidden pattern: '' @ CHR 0x5C # ''bwill'' @ CHR 0x5C
                 # ''s+(do|be|happen|occur)'')"
proof -
  let ?p = "[WordB, Lit ''will'', Spaces, Alt [''do'', ''be'', ''happen'', ''occur'']]"
  have m: "re_search ?p (lower ''This will happen tomorrow'')" by code_simp
  have f: "FORBIDDEN_PATTERNS = [] @ ?p # tl FORBIDDEN_PATTERNS"
    by (simp add: FORBIDDEN_PATTERNS_def)
  have e: "\<forall>q\<in>set []. \<not> re_search q (lower ''This will happen tomorrow'')" by simp
  have s: "pattern_source ?p = CHR 0x5C # ''bwill'' @ CHR 0x5C # ''s+(do|be|happen|occur)''"
    by (simp add: pattern_source_def)
  from validate_fact_first[OF f e m] show ?thesis by (simp only: s)
qed

text \<open>
  C6. \<open>validate_fact(s)\<close> returns \<open>(True, "")\<close> exactly when no pattern of
  \<open>FORBIDDEN_PATTERNS\<close> is found in the lowered \<open>s\<close>; otherwise it returns \<open>False\<close> with
  the message that shows the first pattern of the list that is found. The result depends
  on \<open>s\<close> only through its lowering. \<open>validate_fact("The meeting occurred at 3pm")\<close> is
  \<open>(True, "")\<close>, and \<open>validate_fact("This will happen tomorrow")\<close> is \<open>False\<close> with the
  message that shows the first pattern of the list.
\<close>

theorem validate_fact_first_match:
  "(validate_fact s = (True, []) \<longleftrightarrow> (\<forall>p\<in>set FORBIDDEN_PATTERNS. \<not> re_search p (lower s)))
   \<and> (FORBIDDEN_PATTERNS = pre @ p # post \<and> (\<forall>q\<in>set pre. \<not> re_search q (lower s)) \<and>
       re_search p (lower s)
      \<longrightarrow> validate_fact s = (False, ''Fact contains forbidden pattern: '' @ pattern_source p))
   \<and> (lower s = lower s' \<longrightarrow> validate_fact s = validate_fact s')
   \<and> validate_fact ''The meeting occurred at 3pm'' = (True, [])
   \<and> validate_fact ''This will happen tomorrow''
       = (False, ''Fact contains forbidden pattern: '' @ CHR 0x5C # ''bwill'' @ CHR 0x5C
                   # ''s+(do|be|happen|occur)'')"
proof (intro conjI impI)
  show "validate_fact s = (True, []) \<longleftrightarrow> (\<forall>p\<in>set FORBIDDEN_PATTERNS. \<not> re_search p (lower s))"
    by (simp only: validate_fact_def validate_fact_loop_true_iff)
next
  assume a: "FORBIDDEN_PATTERNS = pre @ p # post \<and> (\<forall>q\<in>set pre. \<not> re_search q (lower s)) \<and>
       re_search p (lower s)"
  then show "validate_fact s = (False, ''Fact contains forbidden pattern: '' @ pattern_source p)"
    by (intro validate_fact_first) blast+
next
  assume "lower s = lower s'"
  then show "validate_fact s = validate_fact s'" by (simp only: validate_fact_def)
next
  show "validate_fact ''The meeting occurred at 3pm'' = (True, [])" by (rule meeting_true)
next
  show "validate_fact ''This will happen tomorrow''
       = (False, ''Fact contains forbidden pattern: '' @ CHR 0x5C # ''bwill'' @ CHR 0x5C
                   # ''s+(do|be|happen|occur)'')" by (rule will_happen_false)
qed

theorem validate_fact_first_match_witness:
  "validate_fact ''Rain is Predicted''
     = (False, ''Fact contains forbidden pattern: '' @ CHR 0x5C # ''bpredict'')
   \<and> validate_fact ''RAIN IS PREDICTED'' = validate_fact ''Rain is Predicted''
   \<and> re_search [WordB, Lit ''predict''] (lower ''Rain is Predicted'')"
proof -
  let ?x = "lower ''Rain is Predicted''"
  let ?pre = "[[WordB, Lit ''will'', Spaces, Alt [''do'', ''be'', ''happen'', ''occur'']],
      [WordB, Lit ''should'', Spaces, Alt [''do'', ''be'']],
      [WordB, Lit ''must'', Spaces, Alt [''do'', ''be'']]]"
  let ?p = "[WordB, Lit ''predict'']"
  have n: "\<not> str_contains ''will'' ?x" "\<not> str_contains ''should'' ?x"
    "\<not> str_contains ''must'' ?x"
    by (simp_all add: lower_def)
  have pre: "\<forall>q\<in>set ?pre. \<not> re_search q ?x"
    using n re_search_lit[of _ _ ?x] by (simp only: list.set ball_simps) blast
  have m: "re_search ?p ?x" by code_simp
  have f: "FORBIDDEN_PATTERNS = ?pre @ ?p # drop 4 FORBIDDEN_PATTERNS"
    by (simp add: FORBIDDEN_PATTERNS_def)
  have l: "lower ''RAIN IS PREDICTED'' = lower ''Rain is Predicted''"
    by (simp add: lower_def)
  note t = validate_fact_first_match[of "''RAIN IS PREDICTED''" ?pre ?p
      "drop 4 FORBIDDEN_PATTERNS" "''Rain is Predicted''"]
  note u = validate_fact_first_match[of "''Rain is Predicted''" ?pre ?p
      "drop 4 FORBIDDEN_PATTERNS" "''Rain is Predicted''"]
  from u f pre m have "validate_fact ''Rain is Predicted''
      = (False, ''Fact contains forbidden pattern: '' @ pattern_source ?p)" by blast
  moreover have "pattern_source ?p = CHR 0x5C # ''bpredict''"
    by (simp add: pattern_source_def)
  ultimately have 1: "validate_fact ''Rain is Predicted''
     = (False, ''Fact contains forbidden pattern: '' @ CHR 0x5C # ''bpredict'')"
    by (simp only:)
  from t l have 2: "validate_fact ''RAIN IS PREDICTED'' = validate_fact ''Rain is Predicted''"
    by blast
  from 1 2 m show ?thesis by blast
qed

end
